theory Spec2Isabelle
  imports Complex_Main
begin

section \<open>Values exchanged with the browser\<close>

text \<open>
  The client (\<^verbatim>\<open>backend/mcp_servers/terminal_browser/server.py\<close>) handles the results of
  \<^verbatim>\<open>json.loads\<close>: \<^verbatim>\<open>None\<close>, booleans, numbers, strings, lists and dicts. Numbers are
  kept exact (a rational stands for a Python \<^verbatim>\<open>int\<close> or \<^verbatim>\<open>float\<close>); a dict is the list of its
  items, looked up by key. A string is a list of characters, one per code point (code
  points below 256).
\<close>

datatype json =
    JNull
  | JBool bool
  | JNum rat
  | JStr string
  | JArr "json list"
  | JObj "(string \<times> json) list"

datatype error =
    TimeoutError string
  | KeyError string
  | IndexError
  | TypeError
  | AttributeError
  | ValueError
  | Exception string
  | OSError
  | UnidentifiedImageError

text \<open>\<^verbatim>\<open>d[k]\<close> with a string key: only a dict has string keys.\<close>

definition subscript :: "json \<Rightarrow> string \<Rightarrow> error + json" where
  "subscript d k =
     (case d of
        JObj kvs \<Rightarrow> (case map_of kvs k of None \<Rightarrow> Inl (KeyError k) | Some v \<Rightarrow> Inr v)
      | _ \<Rightarrow> Inl TypeError)"

text \<open>\<^verbatim>\<open>d.get(k, default)\<close>: only a dict has \<^verbatim>\<open>get\<close>.\<close>

definition dict_get :: "json \<Rightarrow> string \<Rightarrow> json \<Rightarrow> error + json" where
  "dict_get d k dflt =
     (case d of
        JObj kvs \<Rightarrow> (case map_of kvs k of None \<Rightarrow> Inr dflt | Some v \<Rightarrow> Inr v)
      | _ \<Rightarrow> Inl AttributeError)"

fun is_infix :: "string \<Rightarrow> string \<Rightarrow> bool" where
  "is_infix k [] = (k = [])"
| "is_infix k (c # cs) = (take (length k) (c # cs) = k \<or> is_infix k cs)"

text \<open>\<^verbatim>\<open>k in d\<close> for a string \<^verbatim>\<open>k\<close>: a key of a dict, an item of a list, a substring of a
  string; anything else is not a container.\<close>

definition contains :: "string \<Rightarrow> json \<Rightarrow> error + bool" where
  "contains k d =
     (case d of
        JObj kvs \<Rightarrow> Inr (map_of kvs k \<noteq> None)
      | JArr xs \<Rightarrow> Inr (List.member xs (JStr k))
      | JStr s \<Rightarrow> Inr (is_infix k s)
      | _ \<Rightarrow> Inl TypeError)"

text \<open>Python's truth value, as \<^verbatim>\<open>not node_id\<close> reads it.\<close>

definition truthy :: "json \<Rightarrow> bool" where
  "truthy v =
     (case v of
        JNull \<Rightarrow> False
      | JBool b \<Rightarrow> b
      | JNum r \<Rightarrow> r \<noteq> 0
      | JStr s \<Rightarrow> s \<noteq> []
      | JArr xs \<Rightarrow> xs \<noteq> []
      | JObj kvs \<Rightarrow> kvs \<noteq> [])"

section \<open>The connection: \<^verbatim>\<open>ChromeDevTools\<close>\<close>

text \<open>
  An inbound frame is the dict parsed off the socket. Following the wire protocol, its
  \<^verbatim>\<open>id\<close>, when it has one, is an integer; \<open>payload\<close> holds its other keys.
\<close>

record frame =
  fid :: "int option"
  payload :: "(string \<times> json) list"

text \<open>An outbound frame, as \<^verbatim>\<open>send_command\<close> builds it.\<close>

record message =
  msg_id :: int
  msg_method :: string
  msg_params :: "(string \<times> json) list"

text \<open>
  The state of one \<^verbatim>\<open>ChromeDevTools\<close> object. The socket \<^verbatim>\<open>ws\<close> is \<^verbatim>\<open>None\<close> until
  \<^verbatim>\<open>connect\<close> succeeds (\<open>ws_connected\<close>); then it is its two directions: \<open>ws_sent\<close>, the
  frames written so far (oldest first), and \<open>ws_incoming\<close>, the frames the socket will
  deliver, grouped by the suspension of the calling task during which the receive task
  \<^verbatim>\<open>_listen\<close> gets to process them (asyncio runs the receive task only while the caller
  is suspended in an \<^verbatim>\<open>await\<close>). An open socket stays open: closing it, and a frame that
  is not JSON, are outside the model.
\<close>

record chrome_dev_tools =
  message_id :: int
  responses :: "int \<rightharpoonup> frame"
  events :: "frame list"
  ws_connected :: bool
  ws_sent :: "message list"
  ws_incoming :: "frame list list"

text \<open>\<^verbatim>\<open>__init__\<close>\<close>

definition new_cdp :: chrome_dev_tools where
  "new_cdp =
     \<lparr>message_id = 0, responses = Map.empty, events = [], ws_connected = False,
      ws_sent = [], ws_incoming = []\<rparr>"

text \<open>The object once \<^verbatim>\<open>connect\<close> has opened a socket that will deliver \<open>feed\<close>.\<close>

definition connected_cdp :: "frame list list \<Rightarrow> chrome_dev_tools" where
  "connected_cdp feed = new_cdp\<lparr>ws_connected := True, ws_incoming := feed\<rparr>"

text \<open>One iteration of the loop of \<^verbatim>\<open>_listen\<close>.\<close>

definition listen :: "frame \<Rightarrow> chrome_dev_tools \<Rightarrow> chrome_dev_tools" where
  "listen data c =
     (case fid data of
        Some i \<Rightarrow> c\<lparr>responses := (responses c)(i \<mapsto> data)\<rparr>
      | None \<Rightarrow> c\<lparr>events := events c @ [data]\<rparr>)"

text \<open>The caller suspends: the receive task processes the next batch of frames.\<close>

definition suspend :: "chrome_dev_tools \<Rightarrow> chrome_dev_tools" where
  "suspend c =
     (case ws_incoming c of
        [] \<Rightarrow> c
      | b # bs \<Rightarrow> fold listen b (c\<lparr>ws_incoming := bs\<rparr>))"

type_synonym 'a io = "chrome_dev_tools \<Rightarrow> (error + 'a) \<times> chrome_dev_tools"

definition and_then :: "'a io \<Rightarrow> ('a \<Rightarrow> 'b io) \<Rightarrow> 'b io" where
  "and_then m f c = (case m c of (Inl e, c') \<Rightarrow> (Inl e, c') | (Inr x, c') \<Rightarrow> f x c')"

definition lift :: "error + 'a \<Rightarrow> 'a io" where
  "lift r c = (r, c)"

text \<open>The polling loop of \<^verbatim>\<open>send_command\<close>: \<open>n\<close> rounds of "look, then sleep" are left.\<close>

fun wait_response :: "nat \<Rightarrow> int \<Rightarrow> string \<Rightarrow> frame io" where
  "wait_response 0 i meth c = (Inl (TimeoutError (''No response for '' @ meth)), c)"
| "wait_response (Suc n) i meth c =
     (case responses c i of
        Some r \<Rightarrow> (Inr r, c\<lparr>responses := (responses c)(i := None)\<rparr>)
      | None \<Rightarrow> wait_response n i meth (suspend c))"

text \<open>\<^verbatim>\<open>params or {}\<close>\<close>

definition params_or_empty :: "(string \<times> json) list option \<Rightarrow> (string \<times> json) list" where
  "params_or_empty p = (case p of None \<Rightarrow> [] | Some kvs \<Rightarrow> kvs)"

definition send_command :: "string \<Rightarrow> (string \<times> json) list option \<Rightarrow> frame io" where
  "send_command meth p c =
     (let c1 = c\<lparr>message_id := message_id c + 1\<rparr>;
          i = message_id c1;
          msg = \<lparr>msg_id = i, msg_method = meth, msg_params = params_or_empty p\<rparr>
      in if \<not> ws_connected c1 then (Inl AttributeError, c1)
         else wait_response 100 i meth (suspend (c1\<lparr>ws_sent := ws_sent c1 @ [msg]\<rparr>)))"

text \<open>\<^verbatim>\<open>result['result']\<close> on a reply.\<close>

definition reply_result :: "frame \<Rightarrow> error + json" where
  "reply_result r =
     (case map_of (payload r) ''result'' of None \<Rightarrow> Inl (KeyError ''result'') | Some v \<Rightarrow> Inr v)"

text \<open>
  What a caller task does over the life of a connection, as far as the correlation layer
  sees it: it issues a command, or it is suspended elsewhere and the receive task runs.
\<close>

datatype activity = Call string "(string \<times> json) list option" | Idle

fun act :: "activity \<Rightarrow> chrome_dev_tools \<Rightarrow> chrome_dev_tools" where
  "act (Call meth p) c = snd (send_command meth p c)"
| "act Idle c = suspend c"

definition run :: "activity list \<Rightarrow> chrome_dev_tools \<Rightarrow> chrome_dev_tools" where
  "run acts c = fold act acts c"

section \<open>Python built-ins the client uses\<close>

definition attempt :: "error + 'a \<Rightarrow> ('a \<Rightarrow> error + 'b) \<Rightarrow> error + 'b" where
  "attempt r f = (case r of Inl e \<Rightarrow> Inl e | Inr x \<Rightarrow> f x)"

text \<open>\<^verbatim>\<open>str(n)\<close> for an integer.\<close>

definition digit_char :: "nat \<Rightarrow> char" where
  "digit_char d = char_of (of_char CHR ''0'' + d)"

fun str_nat :: "nat \<Rightarrow> string" where
  "str_nat n = (if n < 10 then [digit_char n] else str_nat (n div 10) @ [digit_char (n mod 10)])"

definition str_int :: "int \<Rightarrow> string" where
  "str_int i = (if i < 0 then CHR ''-'' # str_nat (nat (- i)) else str_nat (nat i))"

text \<open>
  \<^verbatim>\<open>int(s)\<close> for a string: surrounding whitespace is skipped, a sign may lead, then
  decimal digits, where single underscores may separate digits. \<open>None\<close> is \<^verbatim>\<open>ValueError\<close>.
  The whitespace \<^verbatim>\<open>int\<close> skips is tab, line feed, vertical tab, form feed, carriage return
  and space, and the two spaces above the ASCII range (next line, no-break space), which
  it first turns into a space; the separators 28 to 31 are not among it. The interpreter
  refuses a text of more than \<open>max_str_digits\<close> digits, whatever the value (its default
  limit; underscores and the sign do not count).
\<close>

definition is_space :: "char \<Rightarrow> bool" where
  "is_space ch = (of_char ch \<in> {9, 10, 11, 12, 13, 32, 133, 160 :: nat})"

definition max_str_digits :: nat where
  "max_str_digits = 4300"

definition is_digit :: "char \<Rightarrow> bool" where
  "is_digit ch = (of_char CHR ''0'' \<le> (of_char ch :: nat) \<and> (of_char ch :: nat) \<le> of_char CHR ''9'')"

definition digit_val :: "char \<Rightarrow> int" where
  "digit_val ch = int (of_char ch - of_char CHR ''0'')"

definition strip :: "string \<Rightarrow> string" where
  "strip s = rev (dropWhile is_space (rev (dropWhile is_space s)))"

fun parse_digits :: "int \<Rightarrow> string \<Rightarrow> int option" where
  "parse_digits acc [] = None"
| "parse_digits acc [ch] = (if is_digit ch then Some (10 * acc + digit_val ch) else None)"
| "parse_digits acc (ch # d # ds) =
     (if is_digit ch
      then (if d = CHR ''_'' then parse_digits (10 * acc + digit_val ch) ds
            else parse_digits (10 * acc + digit_val ch) (d # ds))
      else None)"

definition int_of_str :: "string \<Rightarrow> int option" where
  "int_of_str s =
     (case strip s of
        [] \<Rightarrow> None
      | ch # cs \<Rightarrow>
          (let body = (if ch = CHR ''-'' \<or> ch = CHR ''+'' then cs else ch # cs)
           in if max_str_digits < length (filter is_digit body) then None
              else if ch = CHR ''-'' then map_option uminus (parse_digits 0 body)
              else parse_digits 0 body))"

text \<open>\<^verbatim>\<open>int(v)\<close> for a parsed JSON value: a number is truncated toward zero.\<close>

definition trunc :: "rat \<Rightarrow> int" where
  "trunc r = (if r < 0 then \<lceil>r\<rceil> else \<lfloor>r\<rfloor>)"

definition py_int :: "json \<Rightarrow> error + int" where
  "py_int v =
     (case v of
        JNum r \<Rightarrow> Inr (trunc r)
      | JBool b \<Rightarrow> Inr (if b then 1 else 0)
      | JStr s \<Rightarrow> (case int_of_str s of None \<Rightarrow> Inl ValueError | Some i \<Rightarrow> Inr i)
      | _ \<Rightarrow> Inl TypeError)"

text \<open>\<^verbatim>\<open>s.split(sep)\<close> and \<^verbatim>\<open>s.startswith(p)\<close>\<close>

fun split_on :: "char \<Rightarrow> string \<Rightarrow> string list" where
  "split_on sep [] = [[]]"
| "split_on sep (ch # cs) =
     (if ch = sep then [] # split_on sep cs
      else (case split_on sep cs of [] \<Rightarrow> [[ch]] | w # ws \<Rightarrow> (ch # w) # ws))"

definition startswith :: "string \<Rightarrow> string \<Rightarrow> bool" where
  "startswith s p = (take (length p) s = p)"

text \<open>\<^verbatim>\<open>xs[i]\<close> on a list, for any integer \<open>i\<close>.\<close>

definition list_index :: "'a list \<Rightarrow> int \<Rightarrow> error + 'a" where
  "list_index xs i =
     (if 0 \<le> i \<and> i < int (length xs) then Inr (xs ! nat i)
      else if i < 0 \<and> - int (length xs) \<le> i then Inr (xs ! nat (int (length xs) + i))
      else Inl IndexError)"

text \<open>\<^verbatim>\<open>v[i]\<close> with an integer index, \<^verbatim>\<open>len(v)\<close> and iteration over a parsed JSON value.\<close>

definition getitem :: "json \<Rightarrow> int \<Rightarrow> error + json" where
  "getitem v i =
     (case v of
        JArr xs \<Rightarrow> list_index xs i
      | JStr s \<Rightarrow> map_sum id (\<lambda>ch. JStr [ch]) (list_index s i)
      | JObj kvs \<Rightarrow> Inl (KeyError (str_int i))
      | _ \<Rightarrow> Inl TypeError)"

definition py_len :: "json \<Rightarrow> error + int" where
  "py_len v =
     (case v of
        JArr xs \<Rightarrow> Inr (int (length xs))
      | JStr s \<Rightarrow> Inr (int (length s))
      | JObj kvs \<Rightarrow> Inr (int (length kvs))
      | _ \<Rightarrow> Inl TypeError)"

definition iterate :: "json \<Rightarrow> error + json list" where
  "iterate v =
     (case v of
        JArr xs \<Rightarrow> Inr xs
      | JStr s \<Rightarrow> Inr (map (\<lambda>ch. JStr [ch]) s)
      | JObj kvs \<Rightarrow> Inr (map (\<lambda>kv. JStr (fst kv)) kvs)
      | _ \<Rightarrow> Inl TypeError)"

text \<open>A number as arithmetic sees it (\<^verbatim>\<open>True\<close> is 1).\<close>

definition as_number :: "json \<Rightarrow> rat option" where
  "as_number v =
     (case v of JNum r \<Rightarrow> Some r | JBool b \<Rightarrow> Some (if b then 1 else 0) | _ \<Rightarrow> None)"

text \<open>\<^verbatim>\<open>(a + b) / 2\<close>: two strings or two lists add, but do not divide. The quotient is
  exact here; the program's is the nearest double, which is the same number whenever the
  sum and its half are representable (as for integer coordinates below \<open>2^53\<close>).\<close>

definition midpoint :: "json \<Rightarrow> json \<Rightarrow> error + rat" where
  "midpoint a b =
     (case (as_number a, as_number b) of
        (Some x, Some y) \<Rightarrow> Inr ((x + y) / 2)
      | _ \<Rightarrow> Inl TypeError)"

section \<open>What lies outside the program\<close>

text \<open>
  Images. The imaging library decodes a buffer into an image and encodes an image into a
  buffer; the model keeps, for an image, its pixel mode, its size, its original content
  and the shapes drawn on it since, and for a buffer the format it is encoded in and the
  image it decodes to (or that it is no image at all).
\<close>

datatype img_format = PNG | JPEG | GIF | BMP | WEBP

datatype img_mode = RGB | RGBA | Palette | Greyscale | Bilevel | CMYK

type_synonym rgba = "nat \<times> nat \<times> nat \<times> nat"

datatype shape =
    Ellipse "int \<times> int" "int \<times> int" rgba rgba nat
  | Caption "int \<times> int" string rgba

record image =
  img_mode :: img_mode
  img_width :: nat
  img_height :: nat
  img_base :: "nat list"
  img_drawn :: "shape list"

datatype buffer = Encoded img_format image | NoImage "nat list"

text \<open>
  The environment of one tool call: what target discovery answers and what the socket
  opened on a target will deliver, base64, the metrics of the font in use, the file
  system, the vision model, and the text \<^verbatim>\<open>str\<close> gives for a value that is not a string.
\<close>

record env =
  discover :: "error + json"
  open_socket :: "json \<Rightarrow> error + frame list list"
  b64decode :: "string \<Rightarrow> buffer option"
  b64encode :: "buffer \<Rightarrow> string"
  textbbox :: "string \<Rightarrow> int \<times> int \<times> int \<times> int"
  can_write :: bool
  vision_chat :: "string \<Rightarrow> string \<Rightarrow> error + json"
  format_value :: "json \<Rightarrow> string"

definition py_str :: "env \<Rightarrow> json \<Rightarrow> string" where
  "py_str en v = (case v of JStr s \<Rightarrow> s | _ \<Rightarrow> format_value en v)"

section \<open>The commands of \<^verbatim>\<open>ChromeDevTools\<close>\<close>

definition navigate :: "string \<Rightarrow> frame io" where
  "navigate url =
     and_then (send_command ''Page.navigate'' (Some [(''url'', JStr url)])) (\<lambda>result.
     and_then (send_command ''Page.loadEventFired'' None) (\<lambda>_.
     lift (Inr result)))"

text \<open>The text of the script that enumerates the interactive elements (abbreviated here:
  it runs in the browser).\<close>

definition locator_script :: string where
  "locator_script = ''(() => { const elements = []; /* ... */ return elements; })()''"

definition get_interactive_elements :: "json io" where
  "get_interactive_elements =
     and_then (send_command ''Runtime.evaluate''
                 (Some [(''expression'', JStr locator_script), (''returnByValue'', JBool True)]))
       (\<lambda>result. lift (attempt (reply_result result) (\<lambda>r. dict_get r ''value'' (JArr []))))"

text \<open>The body of the loop of \<^verbatim>\<open>_add_overlays\<close>, for the element numbered \<open>idx\<close>.\<close>

definition draw_overlay :: "env \<Rightarrow> nat \<Rightarrow> json \<Rightarrow> image \<Rightarrow> error + image" where
  "draw_overlay en idx el im =
     attempt (subscript el ''x'') (\<lambda>xv.
     attempt (py_int xv) (\<lambda>x.
     attempt (subscript el ''y'') (\<lambda>yv.
     attempt (py_int yv) (\<lambda>y.
       let radius = 15;
           circle = Ellipse (x - radius, y - radius) (x + radius, y + radius)
                      (0, 123, 255, 200) (255, 255, 255, 255) 2;
           text = str_nat idx;
           bbox = textbbox en text;
           text_width = fst (snd (snd bbox)) - fst bbox;
           text_height = snd (snd (snd bbox)) - fst (snd bbox);
           number = Caption (x - text_width div 2, y - text_height div 2) text
                      (255, 255, 255, 255)
       in Inr (im\<lparr>img_drawn := img_drawn im @ [circle, number]\<rparr>)))))"

text \<open>The loop itself: \<^verbatim>\<open>for idx, el in enumerate(elements, 1)\<close>.\<close>

fun draw_overlays :: "env \<Rightarrow> nat \<Rightarrow> json list \<Rightarrow> image \<Rightarrow> error + image" where
  "draw_overlays en idx [] im = Inr im"
| "draw_overlays en idx (el # els) im =
     (case draw_overlay en idx el im of
        Inl e \<Rightarrow> Inl e
      | Inr im' \<Rightarrow> draw_overlays en (Suc idx) els im')"

text \<open>
  \<^verbatim>\<open>_add_overlays\<close>: the image is opened, a drawing context in mode \<^verbatim>\<open>RGBA\<close> is made for it,
  which the library refuses (\<^verbatim>\<open>ValueError\<close>, "mode mismatch") unless the image is in mode
  \<^verbatim>\<open>RGB\<close> or \<^verbatim>\<open>RGBA\<close>, the elements are drawn, and the image is saved as PNG.
\<close>

definition add_overlays :: "env \<Rightarrow> buffer \<Rightarrow> json \<Rightarrow> error + buffer" where
  "add_overlays en screenshot_bytes elements =
     (case screenshot_bytes of
        NoImage bs \<Rightarrow> Inl UnidentifiedImageError
      | Encoded fmt im \<Rightarrow>
          if img_mode im = RGB \<or> img_mode im = RGBA then
            attempt (iterate elements) (\<lambda>els.
            attempt (draw_overlays en 1 els im) (\<lambda>im'.
            Inr (Encoded PNG im')))
          else Inl ValueError)"

definition decode_base64 :: "env \<Rightarrow> json \<Rightarrow> error + buffer" where
  "decode_base64 en v =
     (case v of
        JStr s \<Rightarrow> (case b64decode en s of None \<Rightarrow> Inl ValueError | Some b \<Rightarrow> Inr b)
      | _ \<Rightarrow> Inl TypeError)"

definition screenshot :: "env \<Rightarrow> bool \<Rightarrow> bool \<Rightarrow> (buffer \<times> json) io" where
  "screenshot en full_page with_overlays =
     and_then
       (if full_page then
          and_then (send_command ''Page.getLayoutMetrics'' None) (\<lambda>layout.
          and_then (lift (attempt (reply_result layout) (\<lambda>r.
                          attempt (subscript r ''contentSize'') (\<lambda>cs. subscript cs ''width''))))
            (\<lambda>width.
          and_then (lift (attempt (reply_result layout) (\<lambda>r.
                          attempt (subscript r ''contentSize'') (\<lambda>cs. subscript cs ''height''))))
            (\<lambda>height.
          and_then (send_command ''Emulation.setDeviceMetricsOverride''
                      (Some [(''width'', width), (''height'', height),
                             (''deviceScaleFactor'', JNum 1), (''mobile'', JBool False)]))
            (\<lambda>_. lift (Inr ())))))
        else lift (Inr ()))
       (\<lambda>_.
     and_then (send_command ''Page.captureScreenshot'' None) (\<lambda>result.
     and_then (lift (attempt (reply_result result) (\<lambda>r. subscript r ''data''))) (\<lambda>data.
     and_then (lift (decode_base64 en data)) (\<lambda>screenshot_bytes.
       if with_overlays then
         and_then get_interactive_elements (\<lambda>elements.
         and_then (lift (add_overlays en screenshot_bytes elements)) (\<lambda>annotated.
         lift (Inr (annotated, elements))))
       else lift (Inr (screenshot_bytes, JArr []))))))"

definition get_dom :: "json io" where
  "get_dom = and_then (send_command ''DOM.getDocument'' None) (\<lambda>result. lift (reply_result result))"

definition query_selector :: "json \<Rightarrow> json io" where
  "query_selector selector =
     and_then get_dom (\<lambda>doc.
     and_then (lift (attempt (subscript doc ''root'') (\<lambda>root. subscript root ''nodeId''))) (\<lambda>root_id.
     and_then (send_command ''DOM.querySelector''
                 (Some [(''nodeId'', root_id), (''selector'', selector)])) (\<lambda>result.
     lift (attempt (reply_result result) (\<lambda>r. dict_get r ''nodeId'' JNull)))))"

definition not_found :: "env \<Rightarrow> json \<Rightarrow> json" where
  "not_found en selector =
     JObj [(''success'', JBool False),
           (''error'', JStr (''Element not found: '' @ py_str en selector))]"

definition mouse_event :: "string \<Rightarrow> rat \<Rightarrow> rat \<Rightarrow> (string \<times> json) list" where
  "mouse_event kind x y =
     [(''type'', JStr kind), (''x'', JNum x), (''y'', JNum y),
      (''button'', JStr ''left''), (''clickCount'', JNum 1)]"

definition click :: "env \<Rightarrow> json \<Rightarrow> json io" where
  "click en selector =
     and_then (query_selector selector) (\<lambda>node_id.
       if \<not> truthy node_id then lift (Inr (not_found en selector))
       else
         and_then (send_command ''DOM.getBoxModel'' (Some [(''nodeId'', node_id)])) (\<lambda>result.
         and_then (lift (attempt (reply_result result) (\<lambda>r.
                         attempt (subscript r ''model'') (\<lambda>m. subscript m ''content'')))) (\<lambda>box.
         and_then (lift (attempt (getitem box 0) (\<lambda>b0. attempt (getitem box 2) (\<lambda>b2.
                         midpoint b0 b2)))) (\<lambda>x.
         and_then (lift (attempt (getitem box 1) (\<lambda>b1. attempt (getitem box 5) (\<lambda>b5.
                         midpoint b1 b5)))) (\<lambda>y.
         and_then (send_command ''Input.dispatchMouseEvent''
                     (Some (mouse_event ''mousePressed'' x y))) (\<lambda>_.
         and_then (send_command ''Input.dispatchMouseEvent''
                     (Some (mouse_event ''mouseReleased'' x y))) (\<lambda>_.
         lift (Inr (JObj [(''success'', JBool True), (''selector'', selector)])))))))))"

definition key_event :: "char \<Rightarrow> (string \<times> json) list" where
  "key_event ch = [(''type'', JStr ''char''), (''text'', JStr [ch])]"

text \<open>The loop of \<^verbatim>\<open>type_text\<close> over the characters of the text.\<close>

fun type_chars :: "string \<Rightarrow> unit io" where
  "type_chars [] c = (Inr (), c)"
| "type_chars (ch # cs) c =
     (case send_command ''Input.dispatchKeyEvent'' (Some (key_event ch)) c of
        (Inl e, c') \<Rightarrow> (Inl e, c')
      | (Inr _, c') \<Rightarrow> type_chars cs c')"

definition type_text :: "env \<Rightarrow> json \<Rightarrow> string \<Rightarrow> json io" where
  "type_text en selector text =
     and_then (query_selector selector) (\<lambda>node_id.
       if \<not> truthy node_id then lift (Inr (not_found en selector))
       else
         and_then (send_command ''DOM.focus'' (Some [(''nodeId'', node_id)])) (\<lambda>_.
         and_then (type_chars text) (\<lambda>_.
         lift (Inr (JObj [(''success'', JBool True), (''selector'', selector),
                          (''text'', JStr text)])))))"

definition script_outcome :: "frame \<Rightarrow> error + json" where
  "script_outcome result =
     attempt (reply_result result) (\<lambda>r.
     attempt (contains ''exceptionDetails'' r) (\<lambda>raised.
       if raised then
         attempt (subscript r ''exceptionDetails'') (\<lambda>details.
         attempt (subscript details ''text'') (\<lambda>txt.
         Inr (JObj [(''success'', JBool False), (''error'', txt)])))
       else
         attempt (dict_get r ''value'' JNull) (\<lambda>v.
         Inr (JObj [(''success'', JBool True), (''result'', v)]))))"

definition execute_script :: "string \<Rightarrow> json io" where
  "execute_script script =
     and_then (send_command ''Runtime.evaluate''
                 (Some [(''expression'', JStr script), (''returnByValue'', JBool True)]))
       (\<lambda>result. lift (script_outcome result))"

definition get_content :: "json io" where
  "get_content =
     and_then get_dom (\<lambda>doc.
     and_then (lift (attempt (subscript doc ''root'') (\<lambda>root. subscript root ''nodeId''))) (\<lambda>root_id.
     and_then (send_command ''DOM.getOuterHTML'' (Some [(''nodeId'', root_id)])) (\<lambda>result.
     lift (attempt (reply_result result) (\<lambda>r. subscript r ''outerHTML'')))))"

text \<open>A key of an inbound frame, and the frame as the dict it is.\<close>

definition frame_get :: "frame \<Rightarrow> string \<Rightarrow> json option" where
  "frame_get f k =
     (if k = ''id'' then map_option (\<lambda>i. JNum (of_int i)) (fid f) else map_of (payload f) k)"

definition frame_json :: "frame \<Rightarrow> json" where
  "frame_json f =
     JObj ((case fid f of None \<Rightarrow> [] | Some i \<Rightarrow> [(''id'', JNum (of_int i))]) @ payload f)"

fun map_all :: "('a \<Rightarrow> error + 'b) \<Rightarrow> 'a list \<Rightarrow> error + 'b list" where
  "map_all f [] = Inr []"
| "map_all f (x # xs) =
     (case f x of
        Inl e \<Rightarrow> Inl e
      | Inr y \<Rightarrow> (case map_all f xs of Inl e \<Rightarrow> Inl e | Inr ys \<Rightarrow> Inr (y # ys)))"

definition console_message :: "frame \<Rightarrow> error + json" where
  "console_message event =
     (case frame_get event ''params'' of
        None \<Rightarrow> Inl (KeyError ''params'')
      | Some ps \<Rightarrow>
          attempt (subscript ps ''type'') (\<lambda>ty.
          attempt (subscript ps ''args'') (\<lambda>args.
          attempt (iterate args) (\<lambda>items.
          attempt (map_all (\<lambda>arg. dict_get arg ''value'' JNull) items) (\<lambda>vals.
          Inr (JObj [(''type'', ty), (''args'', JArr vals)]))))))"

definition get_console_messages :: "chrome_dev_tools \<Rightarrow> error + json" where
  "get_console_messages c =
     map_sum id JArr
       (map_all console_message
          (filter (\<lambda>e. frame_get e ''method'' = Some (JStr ''Runtime.consoleAPICalled''))
             (events c)))"

definition is_network_event :: "frame \<Rightarrow> error + bool" where
  "is_network_event e =
     (case frame_get e ''method'' of
        None \<Rightarrow> Inr False
      | Some (JStr m) \<Rightarrow> Inr (startswith m ''Network.'')
      | Some _ \<Rightarrow> Inl AttributeError)"

definition get_network_activity :: "chrome_dev_tools \<Rightarrow> error + json" where
  "get_network_activity c =
     attempt (map_all is_network_event (events c)) (\<lambda>flags.
     Inr (JArr (map (\<lambda>p. frame_json (fst p)) (filter snd (zip (events c) flags)))))"

section \<open>The tool server: \<^verbatim>\<open>TerminalBrowserServer\<close>\<close>

text \<open>
  The fields the browser tools read and write: the connection \<^verbatim>\<open>cdp\<close> (\<^verbatim>\<open>None\<close> until the
  first browser tool runs), the registry \<^verbatim>\<open>last_elements\<close>, and the file the screenshot
  is saved to. The terminal tools touch none of them.
\<close>

record server =
  cdp :: "chrome_dev_tools option"
  last_elements :: json
  screenshot_file :: "buffer option"

type_synonym 'a tool = "server \<Rightarrow> (error + 'a) \<times> server"

definition new_server :: server where
  "new_server = \<lparr>cdp = None, last_elements = JArr [], screenshot_file = None\<rparr>"

text \<open>\<^verbatim>\<open>ChromeDevTools.connect\<close>, on the fresh object.\<close>

definition connect :: "env \<Rightarrow> unit io" where
  "connect en c =
     (case discover en of
        Inl e \<Rightarrow> (Inl e, c)
      | Inr targets \<Rightarrow>
          if \<not> truthy targets
          then (Inl (Exception
                  ''No Chrome targets found. Is Chrome running with --remote-debugging-port=9222?''), c)
          else
            (case attempt (getitem targets 0) (\<lambda>t. subscript t ''webSocketDebuggerUrl'') of
               Inl e \<Rightarrow> (Inl e, c)
             | Inr ws_url \<Rightarrow>
                 (case open_socket en ws_url of
                    Inl e \<Rightarrow> (Inl e, c)
                  | Inr feed \<Rightarrow> (Inr (), c\<lparr>ws_connected := True, ws_incoming := feed\<rparr>))))"

text \<open>\<^verbatim>\<open>_ensure_cdp\<close>: the object is stored before \<^verbatim>\<open>connect\<close> is awaited.\<close>

definition ensure_cdp :: "env \<Rightarrow> unit tool" where
  "ensure_cdp en srv =
     (case cdp srv of
        Some c \<Rightarrow> (Inr (), srv)
      | None \<Rightarrow> (case connect en new_cdp of (r, c') \<Rightarrow> (r, srv\<lparr>cdp := Some c'\<rparr>)))"

text \<open>A method of \<^verbatim>\<open>self.cdp\<close>, run from a tool.\<close>

definition on_cdp :: "'a io \<Rightarrow> 'a tool" where
  "on_cdp m srv =
     (case cdp srv of
        None \<Rightarrow> (Inl AttributeError, srv)
      | Some c \<Rightarrow> (case m c of (r, c') \<Rightarrow> (r, srv\<lparr>cdp := Some c'\<rparr>)))"

text \<open>
  \<^verbatim>\<open>str(e)\<close> for a caught exception. The texts of the interpreter's own messages are not
  modelled: the name of the class stands for them.
\<close>

definition error_str :: "error \<Rightarrow> string" where
  "error_str e =
     (case e of
        TimeoutError m \<Rightarrow> m
      | Exception m \<Rightarrow> m
      | KeyError k \<Rightarrow> [CHR 0x27] @ k @ [CHR 0x27]
      | IndexError \<Rightarrow> ''IndexError''
      | TypeError \<Rightarrow> ''TypeError''
      | AttributeError \<Rightarrow> ''AttributeError''
      | ValueError \<Rightarrow> ''ValueError''
      | OSError \<Rightarrow> ''OSError''
      | UnidentifiedImageError \<Rightarrow> ''UnidentifiedImageError'')"

definition failure :: "error \<Rightarrow> json" where
  "failure e = JObj [(''success'', JBool False), (''error'', JStr (error_str e))]"

text \<open>\<^verbatim>\<open>except Exception as e: return {"success": False, "error": str(e)}\<close>\<close>

definition guarded :: "(error + json) \<times> server \<Rightarrow> (error + json) \<times> server" where
  "guarded r = (case r of (Inl e, srv) \<Rightarrow> (Inr (failure e), srv) | (Inr v, srv) \<Rightarrow> (Inr v, srv))"

definition browser_navigate :: "env \<Rightarrow> string \<Rightarrow> json tool" where
  "browser_navigate en url srv =
     (case ensure_cdp en srv of
        (Inl e, s1) \<Rightarrow> (Inl e, s1)
      | (Inr _, s1) \<Rightarrow>
          guarded (case on_cdp (navigate url) s1 of
                     (Inl e, s2) \<Rightarrow> (Inl e, s2)
                   | (Inr _, s2) \<Rightarrow> (Inr (JObj [(''success'', JBool True), (''url'', JStr url)]), s2)))"

text \<open>One entry of the \<^verbatim>\<open>elements\<close> list that \<^verbatim>\<open>browser_screenshot\<close> reports.\<close>

definition element_summary :: "nat \<times> json \<Rightarrow> error + json" where
  "element_summary p =
     attempt (subscript (snd p) ''tag'') (\<lambda>tag.
     attempt (dict_get (snd p) ''type'' JNull) (\<lambda>ty.
     attempt (subscript (snd p) ''text'') (\<lambda>txt.
     attempt (subscript (snd p) ''selector'') (\<lambda>sel.
     Inr (JObj [(''number'', JNum (of_nat (fst p))), (''tag'', tag), (''type'', ty),
                (''text'', txt), (''selector'', sel)])))))"

definition enumerate1 :: "'a list \<Rightarrow> (nat \<times> 'a) list" where
  "enumerate1 xs = zip [1 ..< Suc (length xs)] xs"

definition default_prompt :: string where
  "default_prompt = ''Describe what you see on this webpage. Include key elements, layout, and any important information.''"

text \<open>What \<^verbatim>\<open>browser_screenshot\<close> does after saving the file: it builds the result.\<close>

definition screenshot_result ::
    "env \<Rightarrow> bool \<Rightarrow> string option \<Rightarrow> bool \<Rightarrow> buffer \<Rightarrow> json \<Rightarrow> error + json" where
  "screenshot_result en analyze question with_overlays screenshot_bytes elements =
     attempt (if with_overlays
              then attempt (iterate elements) (\<lambda>els. map_all element_summary (enumerate1 els))
              else Inr [])
       (\<lambda>summaries.
          let result = [(''success'', JBool True),
                        (''screenshot_path'', JStr ''/tmp/browser_screenshot.png''),
                        (''elements'', JArr summaries)]
          in if analyze then
               attempt (vision_chat en
                          (case question of
                             None \<Rightarrow> default_prompt
                           | Some q \<Rightarrow> if q = [] then default_prompt else q)
                          (b64encode en screenshot_bytes)) (\<lambda>response.
               attempt (subscript response ''message'') (\<lambda>m.
               attempt (subscript m ''content'') (\<lambda>content.
               Inr (JObj (result @ [(''analysis'', content)])))))
             else Inr (JObj result))"

definition browser_screenshot ::
    "env \<Rightarrow> bool \<Rightarrow> string option \<Rightarrow> bool \<Rightarrow> bool \<Rightarrow> json tool" where
  "browser_screenshot en analyze question full_page with_overlays srv =
     (case ensure_cdp en srv of
        (Inl e, s1) \<Rightarrow> (Inl e, s1)
      | (Inr _, s1) \<Rightarrow>
          (case on_cdp (screenshot en full_page with_overlays) s1 of
             (Inl e, s2) \<Rightarrow> (Inr (failure e), s2)
           | (Inr shot, s2) \<Rightarrow>
               if \<not> can_write en
               then (Inr (failure OSError), s2\<lparr>last_elements := snd shot\<rparr>)
               else
                 guarded
                   (screenshot_result en analyze question with_overlays (fst shot) (snd shot),
                    s2\<lparr>last_elements := snd shot, screenshot_file := Some (fst shot)\<rparr>)))"

definition browser_get_dom :: "env \<Rightarrow> json tool" where
  "browser_get_dom en srv =
     (case ensure_cdp en srv of
        (Inl e, s1) \<Rightarrow> (Inl e, s1)
      | (Inr _, s1) \<Rightarrow>
          guarded (case on_cdp get_dom s1 of
                     (Inl e, s2) \<Rightarrow> (Inl e, s2)
                   | (Inr tree, s2) \<Rightarrow> (Inr (JObj [(''success'', JBool True), (''dom'', tree)]), s2)))"

text \<open>
  The block that \<^verbatim>\<open>browser_click\<close> and \<^verbatim>\<open>browser_type\<close> both start with. It raises
  (\<open>Inl\<close>), returns a failure to the caller of the tool (\<open>Inr (Inl _)\<close>), or yields the
  selector to go on with (\<open>Inr (Inr _)\<close>).
\<close>

definition invalid_format :: "string \<Rightarrow> json" where
  "invalid_format selector =
     JObj [(''success'', JBool False),
           (''error'', JStr (''Invalid element number format: '' @ selector))]"

definition number_not_found :: "int \<Rightarrow> json" where
  "number_not_found element_num =
     JObj [(''success'', JBool False),
           (''error'', JStr (''Element number '' @ str_int element_num
                              @ '' not found. Take a screenshot first.''))]"

definition caught :: "string \<Rightarrow> error \<Rightarrow> error + (json + json)" where
  "caught selector e =
     (if e = ValueError \<or> e = IndexError then Inr (Inl (invalid_format selector)) else Inl e)"

definition resolve_reference :: "json \<Rightarrow> string \<Rightarrow> error + (json + json)" where
  "resolve_reference registry selector =
     (if startswith selector ''element:'' then
        (case list_index (split_on CHR '':'' selector) 1 of
           Inl e \<Rightarrow> caught selector e
         | Inr part \<Rightarrow>
             (case int_of_str part of
                None \<Rightarrow> caught selector ValueError
              | Some element_num \<Rightarrow>
                  if 0 < element_num then
                    (case py_len registry of
                       Inl e \<Rightarrow> caught selector e
                     | Inr n \<Rightarrow>
                         if element_num \<le> n then
                           (case attempt (getitem registry (element_num - 1))
                                   (\<lambda>element. subscript element ''selector'') of
                              Inl e \<Rightarrow> caught selector e
                            | Inr sel \<Rightarrow> Inr (Inr sel))
                         else Inr (Inl (number_not_found element_num)))
                  else Inr (Inl (number_not_found element_num))))
      else Inr (Inr (JStr selector)))"

definition browser_click :: "env \<Rightarrow> string \<Rightarrow> json tool" where
  "browser_click en selector srv =
     (case ensure_cdp en srv of
        (Inl e, s1) \<Rightarrow> (Inl e, s1)
      | (Inr _, s1) \<Rightarrow>
          (case resolve_reference (last_elements s1) selector of
             Inl e \<Rightarrow> (Inl e, s1)
           | Inr (Inl early) \<Rightarrow> (Inr early, s1)
           | Inr (Inr sel) \<Rightarrow> on_cdp (click en sel) s1))"

definition browser_type :: "env \<Rightarrow> string \<Rightarrow> string \<Rightarrow> json tool" where
  "browser_type en selector text srv =
     (case ensure_cdp en srv of
        (Inl e, s1) \<Rightarrow> (Inl e, s1)
      | (Inr _, s1) \<Rightarrow>
          (case resolve_reference (last_elements s1) selector of
             Inl e \<Rightarrow> (Inl e, s1)
           | Inr (Inl early) \<Rightarrow> (Inr early, s1)
           | Inr (Inr sel) \<Rightarrow> on_cdp (type_text en sel text) s1))"

definition browser_execute_script :: "env \<Rightarrow> string \<Rightarrow> json tool" where
  "browser_execute_script en script srv =
     (case ensure_cdp en srv of
        (Inl e, s1) \<Rightarrow> (Inl e, s1)
      | (Inr _, s1) \<Rightarrow> on_cdp (execute_script script) s1)"

definition browser_get_content :: "env \<Rightarrow> json tool" where
  "browser_get_content en srv =
     (case ensure_cdp en srv of
        (Inl e, s1) \<Rightarrow> (Inl e, s1)
      | (Inr _, s1) \<Rightarrow>
          guarded (case on_cdp get_content s1 of
                     (Inl e, s2) \<Rightarrow> (Inl e, s2)
                   | (Inr content, s2) \<Rightarrow>
                       (Inr (JObj [(''success'', JBool True), (''content'', content)]), s2)))"

definition browser_get_console :: "env \<Rightarrow> json tool" where
  "browser_get_console en srv =
     (case ensure_cdp en srv of
        (Inl e, s1) \<Rightarrow> (Inl e, s1)
      | (Inr _, s1) \<Rightarrow>
          guarded (case on_cdp (\<lambda>c. (get_console_messages c, c)) s1 of
                     (Inl e, s2) \<Rightarrow> (Inl e, s2)
                   | (Inr messages, s2) \<Rightarrow>
                       (Inr (JObj [(''success'', JBool True), (''messages'', messages)]), s2)))"

definition browser_get_network :: "env \<Rightarrow> json tool" where
  "browser_get_network en srv =
     (case ensure_cdp en srv of
        (Inl e, s1) \<Rightarrow> (Inl e, s1)
      | (Inr _, s1) \<Rightarrow>
          guarded (case on_cdp (\<lambda>c. (get_network_activity c, c)) s1 of
                     (Inl e, s2) \<Rightarrow> (Inl e, s2)
                   | (Inr network, s2) \<Rightarrow>
                       (Inr (JObj [(''success'', JBool True), (''network'', network)]), s2)))"

text \<open>The browser tools as requests, for talking about what happens between two of them.\<close>

datatype request =
    Navigate string
  | Screenshot bool "string option" bool bool
  | GetDom
  | Click string
  | TypeText string string
  | ExecuteScript string
  | GetContent
  | GetConsole
  | GetNetwork

fun call_tool :: "env \<Rightarrow> request \<Rightarrow> json tool" where
  "call_tool en (Navigate url) = browser_navigate en url"
| "call_tool en (Screenshot analyze question full_page with_overlays) =
     browser_screenshot en analyze question full_page with_overlays"
| "call_tool en GetDom = browser_get_dom en"
| "call_tool en (Click selector) = browser_click en selector"
| "call_tool en (TypeText selector text) = browser_type en selector text"
| "call_tool en (ExecuteScript script) = browser_execute_script en script"
| "call_tool en GetContent = browser_get_content en"
| "call_tool en GetConsole = browser_get_console en"
| "call_tool en GetNetwork = browser_get_network en"

text \<open>A session: each request comes with the environment it runs in.\<close>

definition serve :: "(env \<times> request) list \<Rightarrow> server \<Rightarrow> server" where
  "serve reqs srv = fold (\<lambda>p s. snd (call_tool (fst p) (snd p) s)) reqs srv"

section \<open>Invariants of a connection\<close>

text \<open>The ids written to the socket increase strictly and none exceeds the counter.\<close>

definition ids_ok :: "chrome_dev_tools \<Rightarrow> bool" where
  "ids_ok c =
     (sorted_wrt (<) (map msg_id (ws_sent c))
      \<and> list_all (\<lambda>m. msg_id m \<le> message_id c) (ws_sent c))"

text \<open>Every stored reply sits under its own id.\<close>

definition keyed :: "chrome_dev_tools \<Rightarrow> bool" where
  "keyed c = (\<forall>k g. responses c k = Some g \<longrightarrow> fid g = Some k)"

text \<open>No reply with the id \<open>i\<close> is among the frames the socket will still deliver.\<close>

definition quiet :: "int \<Rightarrow> chrome_dev_tools \<Rightarrow> bool" where
  "quiet i c = list_all (list_all (\<lambda>g. fid g \<noteq> Some i)) (ws_incoming c)"

text \<open>The frames the receive task will process during the caller's next suspension.\<close>

definition next_batch :: "chrome_dev_tools \<Rightarrow> frame list" where
  "next_batch c = (case ws_incoming c of [] \<Rightarrow> [] | b # bs \<Rightarrow> b)"

section \<open>Example runs\<close>

text \<open>A socket that stays silent through one whole command (its send and its hundred
  sleeps) and then delivers the reply to the second command.\<close>

definition late_scenario :: chrome_dev_tools where
  "late_scenario =
     connected_cdp ([] # replicate 100 [] @ [[\<lparr>fid = Some 2, payload = [(''result'', JObj [])]\<rparr>]])"

text \<open>An environment for the example runs: no target to discover, nothing decodes, every
  text is measured as 8 by 10, the disk is writable.\<close>

definition example_env :: env where
  "example_env =
     \<lparr>discover = Inr (JArr []), open_socket = (\<lambda>url. Inl OSError),
      b64decode = (\<lambda>s. None), b64encode = (\<lambda>b. []),
      textbbox = (\<lambda>s. (0, 0, 8, 10)), can_write = True,
      vision_chat = (\<lambda>prompt image. Inl OSError), format_value = (\<lambda>v. [])\<rparr>"

text \<open>A reply with a result, and the error reply a browser gives to a method it does not
  know.\<close>

definition result_reply :: "int \<Rightarrow> (string \<times> json) list \<Rightarrow> frame" where
  "result_reply i r = \<lparr>fid = Some i, payload = [(''result'', JObj r)]\<rparr>"

definition error_reply :: "int \<Rightarrow> string \<Rightarrow> frame" where
  "error_reply i m =
     \<lparr>fid = Some i,
      payload = [(''error'', JObj [(''code'', JNum (- 32601)), (''message'', JStr m)])]\<rparr>"

text \<open>The browser answers both requests of a \<^verbatim>\<open>navigate\<close>, the second one (the name of an
  event, sent as a command) with an error, and no event arrives.\<close>

definition navigate_scenario :: chrome_dev_tools where
  "navigate_scenario =
     connected_cdp
       [[result_reply 1 [(''frameId'', JStr ''F1'')]],
        [error_reply 2 ''Page.loadEventFired was not found'']]"

text \<open>A node rotated by 45 degrees: its content quad is a diamond. The browser answers
  the five requests of a \<^verbatim>\<open>click\<close>.\<close>

definition diamond :: json where
  "diamond = JArr [JNum 10, JNum 0, JNum 20, JNum 10, JNum 10, JNum 20, JNum 0, JNum 10]"

definition click_scenario :: chrome_dev_tools where
  "click_scenario =
     connected_cdp
       [[result_reply 1 [(''root'', JObj [(''nodeId'', JNum 1)])]],
        [result_reply 2 [(''nodeId'', JNum 7)]],
        [result_reply 3 [(''model'', JObj [(''content'', diamond)])]],
        [result_reply 4 []],
        [result_reply 5 []]]"

text \<open>
  The centre of a content quad in the words of the specification: the average of the
  least and the greatest x, and of the least and the greatest y, of its four corners
  \<open>[x1, y1, x2, y2, x3, y3, x4, y4]\<close>.
\<close>

definition quad_center_spec :: "rat list \<Rightarrow> rat \<times> rat" where
  "quad_center_spec q =
     ((min (min (q ! 0) (q ! 2)) (min (q ! 4) (q ! 6))
       + max (max (q ! 0) (q ! 2)) (max (q ! 4) (q ! 6))) / 2,
      (min (min (q ! 1) (q ! 3)) (min (q ! 5) (q ! 7))
       + max (max (q ! 1) (q ! 3)) (max (q ! 5) (q ! 7))) / 2)"

text \<open>
  The browser answers the evaluation of \<^verbatim>\<open>1+1\<close> as the protocol has it: the result of the
  reply holds the remote object under \<^verbatim>\<open>result\<close>, and the value lies in that object. An
  exception of the script is reported beside the remote object, under
  \<^verbatim>\<open>exceptionDetails\<close>. A request the browser cannot serve gets an error reply.
\<close>

definition evaluate_scenario :: chrome_dev_tools where
  "evaluate_scenario =
     connected_cdp
       [[result_reply 1
           [(''result'', JObj [(''type'', JStr ''number''), (''value'', JNum 2),
                               (''description'', JStr ''2'')])]]]"

definition exception_scenario :: chrome_dev_tools where
  "exception_scenario =
     connected_cdp
       [[result_reply 1
           [(''result'', JObj [(''type'', JStr ''object''), (''subtype'', JStr ''error'')]),
            (''exceptionDetails'', JObj [(''exceptionId'', JNum 1), (''text'', JStr ''Uncaught'')])]]]"

definition refused_scenario :: chrome_dev_tools where
  "refused_scenario =
     connected_cdp
       [[\<lparr>fid = Some 1,
          payload = [(''error'', JObj [(''code'', JNum (- 32000)),
                                       (''message'', JStr ''Cannot find context with specified id'')])]\<rparr>]]"

text \<open>A reply for the id 2 arrives before any request is made; the browser then answers
  the first request.\<close>

definition early_reply :: frame where
  "early_reply = result_reply 2 [(''frameId'', JStr ''F2'')]"

definition early_reply_scenario :: chrome_dev_tools where
  "early_reply_scenario = connected_cdp [[result_reply 1 [(''frameId'', JStr ''F1'')]]]"

text \<open>The browser answers the five requests of typing two characters into a node.\<close>

definition typing_scenario :: chrome_dev_tools where
  "typing_scenario =
     connected_cdp
       [[result_reply 1 [(''root'', JObj [(''nodeId'', JNum 1)])]],
        [result_reply 2 [(''nodeId'', JNum 7)]],
        [result_reply 3 []],
        [result_reply 4 []],
        [result_reply 5 []]]"

text \<open>A server whose last screenshot found two elements, on a connection to a browser
  that has fallen silent.\<close>

definition example_server :: server where
  "example_server =
     \<lparr>cdp = Some (connected_cdp []),
      last_elements = JArr [JObj [(''tag'', JStr ''a''), (''selector'', JStr ''a#home'')],
                            JObj [(''tag'', JStr ''button''), (''selector'', JStr ''button#go'')]],
      screenshot_file = None\<rparr>"

text \<open>A captured frame of 800 by 600 pixels, and a registry of three elements.\<close>

definition example_frame :: image where
  "example_frame = \<lparr>img_mode = RGB, img_width = 800, img_height = 600, img_base = [], img_drawn = []\<rparr>"

definition example_registry :: "json list" where
  "example_registry =
     [JObj [(''tag'', JStr ''a''), (''x'', JNum 40), (''y'', JNum 20), (''selector'', JStr ''a#home'')],
      JObj [(''tag'', JStr ''input''), (''x'', JNum (301 / 2)), (''y'', JNum 80),
            (''selector'', JStr ''input#q'')],
      JObj [(''tag'', JStr ''button''), (''x'', JNum 300), (''y'', JNum 80),
            (''selector'', JStr ''button#go'')]]"

text \<open>An environment in which the captured data decodes to the example frame, and a
  server that holds the example registry while the browser answers one capture.\<close>

definition capture_env :: env where
  "capture_env = example_env\<lparr>b64decode := (\<lambda>s. Some (Encoded PNG example_frame))\<rparr>"

definition capture_server :: server where
  "capture_server =
     \<lparr>cdp = Some (connected_cdp [[result_reply 1 [(''data'', JStr ''iVBORw0KGgo='')]]]),
      last_elements = JArr example_registry,
      screenshot_file = None\<rparr>"

section \<open>Vocabulary of the properties\<close>

text \<open>One key event request per character of a text, in the order of the text, with
  consecutive ids from \<open>i\<close> on.\<close>

fun key_messages :: "int \<Rightarrow> string \<Rightarrow> message list" where
  "key_messages i [] = []"
| "key_messages i (ch # cs) =
     \<lparr>msg_id = i, msg_method = ''Input.dispatchKeyEvent'',
      msg_params = [(''type'', JStr ''char''), (''text'', JStr [ch])]\<rparr>
       # key_messages (i + 1) cs"

text \<open>The text between the first and the second colon of a string that starts with
  \<^verbatim>\<open>element:\<close> (up to the end when there is no second colon).\<close>

definition reference_text :: "string \<Rightarrow> string" where
  "reference_text s = takeWhile (\<lambda>ch. ch \<noteq> CHR '':'') (drop 8 s)"

text \<open>The number a string of decimal digits denotes, continuing from \<open>acc\<close>.\<close>

fun decimal :: "int \<Rightarrow> string \<Rightarrow> int" where
  "decimal acc [] = acc"
| "decimal acc (ch # cs) = decimal (10 * acc + digit_val ch) cs"

text \<open>An element descriptor that carries a point: numbers under \<^verbatim>\<open>x\<close> and \<^verbatim>\<open>y\<close>.\<close>

definition located :: "json \<Rightarrow> bool" where
  "located el =
     (case (subscript el ''x'', subscript el ''y'') of
        (Inr (JNum x), Inr (JNum y)) \<Rightarrow> True
      | _ \<Rightarrow> False)"

text \<open>The numbers written on an image, in the order they were drawn, and the circles.\<close>

fun caption_texts :: "shape list \<Rightarrow> string list" where
  "caption_texts [] = []"
| "caption_texts (Caption pos label colour # ss) = label # caption_texts ss"
| "caption_texts (Ellipse a b fill outline w # ss) = caption_texts ss"

fun circles :: "shape list \<Rightarrow> (int \<times> int) list" where
  "circles [] = []"
| "circles (Caption pos label colour # ss) = circles ss"
| "circles (Ellipse a b fill outline w # ss) =
     ((fst a + fst b) div 2, (snd a + snd b) div 2) # circles ss"

text \<open>The point \<^verbatim>\<open>(int(el['x']), int(el['y']))\<close> of a located element.\<close>

definition marker_point :: "json \<Rightarrow> int \<times> int" where
  "marker_point el =
     (case (py_int (case subscript el ''x'' of Inr v \<Rightarrow> v | Inl e \<Rightarrow> JNull),
            py_int (case subscript el ''y'' of Inr v \<Rightarrow> v | Inl e \<Rightarrow> JNull)) of
        (Inr x, Inr y) \<Rightarrow> (x, y)
      | _ \<Rightarrow> (0, 0))"

text \<open>A request for a screenshot with overlays.\<close>

fun overlay_screenshot :: "request \<Rightarrow> bool" where
  "overlay_screenshot (Screenshot analyze question full_page with_overlays) = with_overlays"
| "overlay_screenshot other = False"

text \<open>A server that has a connection object and an empty registry.\<close>

definition cleared :: "server \<Rightarrow> bool" where
  "cleared srv = (cdp srv \<noteq> None \<and> last_elements srv = JArr [])"

section \<open>The correlation layer\<close>

lemma listen_keeps [simp]:
  "message_id (listen f c) = message_id c"
  "ws_sent (listen f c) = ws_sent c"
  "ws_connected (listen f c) = ws_connected c"
  "ws_incoming (listen f c) = ws_incoming c"
  by (simp_all add: listen_def split: option.splits)

lemma fold_listen_keeps [simp]:
  "message_id (fold listen b c) = message_id c"
  "ws_sent (fold listen b c) = ws_sent c"
  "ws_connected (fold listen b c) = ws_connected c"
  "ws_incoming (fold listen b c) = ws_incoming c"
  by (induction b arbitrary: c; simp)+

lemma suspend_keeps [simp]:
  "message_id (suspend c) = message_id c"
  "ws_sent (suspend c) = ws_sent c"
  "ws_connected (suspend c) = ws_connected c"
  by (simp_all add: suspend_def split: list.splits)

lemma wait_response_keeps:
  "message_id (snd (wait_response n i meth c)) = message_id c
   \<and> ws_sent (snd (wait_response n i meth c)) = ws_sent c
   \<and> ws_connected (snd (wait_response n i meth c)) = ws_connected c"
  by (induction n arbitrary: c) (auto split: option.splits)

lemma send_command_message_id [simp]:
  "message_id (snd (send_command meth p c)) = message_id c + 1"
  by (simp add: send_command_def Let_def wait_response_keeps)

lemma send_command_connected [simp]:
  "ws_connected (snd (send_command meth p c)) = ws_connected c"
  by (simp add: send_command_def Let_def wait_response_keeps)

lemma send_command_sent:
  "ws_sent (snd (send_command meth p c)) =
     (if ws_connected c
      then ws_sent c @ [\<lparr>msg_id = message_id c + 1, msg_method = meth, msg_params = params_or_empty p\<rparr>]
      else ws_sent c)"
  by (simp add: send_command_def Let_def wait_response_keeps)

lemma act_ids_ok: "ids_ok c \<Longrightarrow> ids_ok (act a c)"
  by (cases a) (auto simp: ids_ok_def send_command_sent sorted_wrt_append list_all_iff)

lemma run_ids_ok: "ids_ok c \<Longrightarrow> ids_ok (run acts c)"
  unfolding run_def by (induction acts arbitrary: c) (simp_all add: act_ids_ok)

lemma connected_ids_ok: "ids_ok (connected_cdp feed)"
  by (simp add: ids_ok_def connected_cdp_def new_cdp_def)

text \<open>
  C9. Over the lifetime of a connection, whatever the caller does (commands that are
  answered, commands that time out, idle periods) and whatever the socket delivers, the
  ids of the requests written to the socket, in the order they were allocated, increase
  strictly; so no id is ever used twice.
\<close>

theorem request_ids_strictly_increasing:
  "sorted_wrt (<) (map msg_id (ws_sent (run acts (connected_cdp feed))))
   \<and> distinct (map msg_id (ws_sent (run acts (connected_cdp feed))))"
  using run_ids_ok [OF connected_ids_ok, of acts feed]
  by (auto simp: ids_ok_def strict_sorted_iff dest: strict_sorted_imp_sorted)

lemma wait_response_quiet:
  "responses c i = None \<Longrightarrow> ws_incoming c = replicate n [] @ rest \<Longrightarrow>
   wait_response n i meth c
     = (Inl (TimeoutError (''No response for '' @ meth)), c\<lparr>ws_incoming := rest\<rparr>)"
proof (induction n arbitrary: c)
  case 0
  then show ?case by simp
next
  case (Suc n)
  have s: "suspend c = c\<lparr>ws_incoming := replicate n [] @ rest\<rparr>"
    using Suc.prems by (simp add: suspend_def)
  show ?case using Suc.prems Suc.IH [of "suspend c"] by (simp add: s)
qed

lemma wait_response_found:
  "responses c i = Some r \<Longrightarrow> 0 < n \<Longrightarrow>
   wait_response n i meth c = (Inr r, c\<lparr>responses := (responses c)(i := None)\<rparr>)"
  by (cases n) simp_all

theorem request_ids_witness:
  "map msg_id (ws_sent (run [Call ''Page.enable'' None, Idle, Call ''DOM.enable'' None]
      (connected_cdp []))) = [1, 2]
   \<and> sorted_wrt (<) (map msg_id (ws_sent (run [Call ''Page.enable'' None, Idle, Call ''DOM.enable'' None]
      (connected_cdp []))))"
proof -
  have "map msg_id (ws_sent (run [Call ''Page.enable'' None, Idle, Call ''DOM.enable'' None]
      (connected_cdp []))) = [1, 2]"
    by (simp add: run_def send_command_sent connected_cdp_def new_cdp_def)
  then show ?thesis
    using request_ids_strictly_increasing
      [of "[Call ''Page.enable'' None, Idle, Call ''DOM.enable'' None]" "[]"]
    by simp
qed

lemma keyed_updates [simp]:
  "keyed (c\<lparr>ws_incoming := bs\<rparr>) = keyed c"
  "keyed (c\<lparr>ws_sent := ms\<rparr>) = keyed c"
  "keyed (c\<lparr>message_id := k\<rparr>) = keyed c"
  "keyed (c\<lparr>events := es\<rparr>) = keyed c"
  by (simp_all add: keyed_def)

lemma keyed_remove: "keyed c \<Longrightarrow> keyed (c\<lparr>responses := (responses c)(i := None)\<rparr>)"
  by (simp add: keyed_def)

lemma listen_keyed: "keyed c \<Longrightarrow> keyed (listen f c)"
  by (cases "fid f") (simp_all add: keyed_def listen_def)

lemma fold_listen_keyed: "keyed c \<Longrightarrow> keyed (fold listen b c)"
  by (induction b arbitrary: c) (simp_all add: listen_keyed)

lemma suspend_keyed: "keyed c \<Longrightarrow> keyed (suspend c)"
  by (cases "ws_incoming c") (simp_all add: suspend_def fold_listen_keyed)

lemma wait_response_keyed:
  "keyed c \<Longrightarrow> keyed (snd (wait_response n i meth c))"
proof (induction n arbitrary: c)
  case 0
  then show ?case by simp
next
  case (Suc n)
  show ?case
  proof (cases "responses c i")
    case None
    then show ?thesis using Suc.IH [OF suspend_keyed [OF Suc.prems]] by simp
  next
    case (Some r)
    then show ?thesis using keyed_remove [OF Suc.prems] by simp
  qed
qed

lemma wait_response_delivers_own:
  "keyed c \<Longrightarrow> wait_response n i meth c = (Inr g, c') \<Longrightarrow> fid g = Some i"
proof (induction n arbitrary: c)
  case 0
  then show ?case by simp
next
  case (Suc n)
  show ?case
  proof (cases "responses c i")
    case None
    then show ?thesis using Suc.IH [OF suspend_keyed [OF Suc.prems(1)]] Suc.prems(2) by simp
  next
    case (Some r)
    then show ?thesis using Suc.prems by (simp add: keyed_def)
  qed
qed

lemma wait_response_fails_timeout:
  "wait_response n i meth c = (Inl e, c') \<Longrightarrow> e = TimeoutError (''No response for '' @ meth)"
proof (induction n arbitrary: c)
  case 0
  then show ?case by simp
next
  case (Suc n)
  then show ?case by (cases "responses c i") simp_all
qed

lemma send_command_keyed: "keyed c \<Longrightarrow> keyed (snd (send_command meth p c))"
  by (simp add: send_command_def Let_def wait_response_keyed suspend_keyed)

lemma send_command_delivers_own:
  assumes "keyed c" and "send_command meth p c = (Inr g, c')"
  shows "fid g = Some (message_id c + 1)"
proof -
  let ?c2 = "suspend (c\<lparr>message_id := message_id c + 1,
      ws_sent := ws_sent c @ [\<lparr>msg_id = message_id c + 1, msg_method = meth, msg_params = params_or_empty p\<rparr>]\<rparr>)"
  have k: "keyed ?c2" using assms(1) by (simp add: suspend_keyed)
  have "wait_response 100 (message_id c + 1) meth ?c2 = (Inr g, c')"
    using assms(2) by (simp add: send_command_def Let_def split: if_splits)
  then show ?thesis by (rule wait_response_delivers_own [OF k])
qed

lemma send_command_fails_timeout:
  assumes "ws_connected c" and "send_command meth p c = (Inl e, c')"
  shows "e = TimeoutError (''No response for '' @ meth)"
  using assms by (auto simp: send_command_def Let_def dest: wait_response_fails_timeout)

lemma act_keyed: "keyed c \<Longrightarrow> keyed (act a c)"
  by (cases a) (simp_all add: send_command_keyed suspend_keyed)

lemma run_keyed: "keyed c \<Longrightarrow> keyed (run acts c)"
  unfolding run_def by (induction acts arbitrary: c) (simp_all add: act_keyed)

lemma act_message_id: "message_id c \<le> message_id (act a c)"
  by (cases a) simp_all

lemma run_message_id: "message_id c \<le> message_id (run acts c)"
  unfolding run_def
proof (induction acts arbitrary: c)
  case Nil show ?case by simp
next
  case (Cons a acts)
  show ?case using Cons [of "act a c"] act_message_id [of c a] by simp
qed

lemma fold_listen_other:
  "list_all (\<lambda>g. fid g \<noteq> Some i) b \<Longrightarrow> responses (fold listen b c) i = responses c i"
proof (induction b arbitrary: c)
  case Nil
  then show ?case by simp
next
  case (Cons f b)
  then show ?case by (cases "fid f") (simp_all add: listen_def)
qed

lemma suspend_other:
  "list_all (\<lambda>g. fid g \<noteq> Some i) (next_batch c) \<Longrightarrow> responses (suspend c) i = responses c i"
  by (cases "ws_incoming c") (simp_all add: suspend_def next_batch_def fold_listen_other)


lemma wait_response_idle:
  "ws_incoming c = [] \<Longrightarrow> responses c i = None \<Longrightarrow>
   wait_response n i meth c = (Inl (TimeoutError (''No response for '' @ meth)), c)"
  by (induction n) (simp_all add: suspend_def)

text \<open>
  Against C1 as stated: on a fresh connection no request is pending; a reply with id 1
  arrives and is retained, and the first call, which allocates id 1, is handed that
  reply.
\<close>

theorem unknown_reply_counterexample:
  "responses (suspend (connected_cdp [[\<lparr>fid = Some 1, payload = [(''result'', JObj [])]\<rparr>]])) 1
     = Some \<lparr>fid = Some 1, payload = [(''result'', JObj [])]\<rparr>
   \<and> ws_sent (suspend (connected_cdp [[\<lparr>fid = Some 1, payload = [(''result'', JObj [])]\<rparr>]])) = []
   \<and> fst (send_command ''Runtime.evaluate'' None
            (suspend (connected_cdp [[\<lparr>fid = Some 1, payload = [(''result'', JObj [])]\<rparr>]])))
     = Inr \<lparr>fid = Some 1, payload = [(''result'', JObj [])]\<rparr>"
  by (simp add: suspend_def connected_cdp_def new_cdp_def listen_def send_command_def
      wait_response_found)

lemma quiet_updates [simp]:
  "quiet i (c\<lparr>message_id := k\<rparr>) = quiet i c"
  "quiet i (c\<lparr>ws_sent := ms\<rparr>) = quiet i c"
  "quiet i (c\<lparr>responses := rs\<rparr>) = quiet i c"
  "quiet i (c\<lparr>events := es\<rparr>) = quiet i c"
  by (simp_all add: quiet_def)

lemma listen_quiet [simp]: "quiet i (listen f c) = quiet i c"
  by (simp add: quiet_def)

lemma suspend_quiet:
  assumes "quiet i c"
  shows "quiet i (suspend c)" and "responses (suspend c) i = responses c i"
  using assms by (cases "ws_incoming c"; simp add: suspend_def quiet_def fold_listen_other)+

lemma wait_response_other:
  "quiet i c \<Longrightarrow> j \<noteq> i \<Longrightarrow>
   quiet i (snd (wait_response n j meth c))
   \<and> responses (snd (wait_response n j meth c)) i = responses c i"
proof (induction n arbitrary: c)
  case 0
  then show ?case by simp
next
  case (Suc n)
  show ?case
  proof (cases "responses c j")
    case None
    then show ?thesis
      using Suc.IH [OF suspend_quiet(1) [OF Suc.prems(1)] Suc.prems(2)]
        suspend_quiet(2) [OF Suc.prems(1)]
      by simp
  next
    case (Some r)
    then show ?thesis using Suc.prems by simp
  qed
qed

lemma send_command_other:
  assumes "quiet i c" and "message_id c + 1 \<noteq> i"
  shows "quiet i (snd (send_command meth p c))"
    and "responses (snd (send_command meth p c)) i = responses c i"
proof -
  let ?c1 = "c\<lparr>message_id := message_id c + 1,
      ws_sent := ws_sent c @ [\<lparr>msg_id = message_id c + 1, msg_method = meth, msg_params = params_or_empty p\<rparr>]\<rparr>"
  have q: "quiet i ?c1" using assms(1) by simp
  note s = suspend_quiet [OF q]
  note w = wait_response_other [OF s(1) assms(2), of 100 meth]
  show "quiet i (snd (send_command meth p c))"
    using assms(1) w by (simp add: send_command_def Let_def)
  show "responses (snd (send_command meth p c)) i = responses c i"
    using w s(2) by (simp add: send_command_def Let_def)
qed

lemma act_other:
  assumes "quiet i c" and "i \<le> message_id c \<or> message_id (act a c) < i"
  shows "quiet i (act a c)" and "responses (act a c) i = responses c i"
proof -
  show "quiet i (act a c)"
  proof (cases a)
    case (Call meth p)
    then show ?thesis using assms send_command_other(1) [of i c meth p] by auto
  next
    case Idle
    then show ?thesis using assms(1) by (simp add: suspend_quiet)
  qed
  show "responses (act a c) i = responses c i"
  proof (cases a)
    case (Call meth p)
    then show ?thesis using assms send_command_other(2) [of i c meth p] by auto
  next
    case Idle
    then show ?thesis using assms(1) by (simp add: suspend_quiet)
  qed
qed

lemma run_other:
  "quiet i c \<Longrightarrow> i \<le> message_id c \<or> message_id (run acts c) < i \<Longrightarrow>
   quiet i (run acts c) \<and> responses (run acts c) i = responses c i"
proof (induction acts arbitrary: c)
  case Nil
  then show ?case by (simp add: run_def)
next
  case (Cons a acts)
  have r: "run (a # acts) c = run acts (act a c)" by (simp add: run_def)
  have m: "message_id (act a c) \<le> message_id (run acts (act a c))" by (rule run_message_id)
  have m0: "message_id c \<le> message_id (act a c)" by (rule act_message_id)
  have 1: "i \<le> message_id c \<or> message_id (act a c) < i"
    using Cons.prems(2) r m by auto
  have 2: "i \<le> message_id (act a c) \<or> message_id (run acts (act a c)) < i"
    using Cons.prems(2) r m0 by auto
  note a = act_other [OF Cons.prems(1) 1]
  show ?case using Cons.IH [OF a(1) 2] a(2) r by simp
qed

lemma act_connected: "ws_connected (act a c) = ws_connected c"
  by (cases a) simp_all

lemma run_connected: "ws_connected (run acts c) = ws_connected c"
  unfolding run_def by (induction acts arbitrary: c) (simp_all add: act_connected)

text \<open>
  C1 (as the code has it). The receive loop keeps no table of pending requests: it stores
  every inbound reply frame under its id, whether or not a request with that id is
  waiting, without touching the event log, and it cannot fail. As long as no other reply
  with that id arrives, the stored reply stays in the table whatever the caller does
  (commands with other ids, answered or timed out, and idle periods) until a call with
  that id takes it: so a call made later that allocates the same id receives the earlier
  reply.
\<close>

theorem reply_stored_under_its_id:
  assumes "fid f = Some i"
    and "quiet i c"
    and "i \<le> message_id c \<or> message_id (run acts (listen f c)) < i"
  shows "responses (listen f c) = (responses c)(i \<mapsto> f)
         \<and> events (listen f c) = events c
         \<and> responses (run acts (listen f c)) i = Some f
         \<and> (ws_connected c \<and> message_id (run acts (listen f c)) + 1 = i
            \<longrightarrow> fst (send_command meth p (run acts (listen f c))) = Inr f)"
proof -
  let ?c' = "run acts (listen f c)"
  have 1: "responses (listen f c) = (responses c)(i \<mapsto> f)" "events (listen f c) = events c"
    using assms(1) by (simp_all add: listen_def)
  have q0: "quiet i (listen f c)" using assms(2) by simp
  have m0: "i \<le> message_id (listen f c) \<or> message_id ?c' < i" using assms(3) by simp
  from run_other [OF q0 m0] have q: "quiet i ?c'" and r: "responses ?c' i = Some f"
    using 1 by simp_all
  have 2: "fst (send_command meth p ?c') = Inr f"
    if h: "ws_connected c" "message_id ?c' + 1 = i"
  proof -
    let ?c1 = "?c'\<lparr>message_id := message_id ?c' + 1,
      ws_sent := ws_sent ?c' @ [\<lparr>msg_id = message_id ?c' + 1, msg_method = meth, msg_params = params_or_empty p\<rparr>]\<rparr>"
    have "quiet i ?c1" using q by simp
    from suspend_quiet(2) [OF this] have "responses (suspend ?c1) i = Some f" using r by simp
    then have "wait_response 100 i meth (suspend ?c1)
        = (Inr f, suspend ?c1\<lparr>responses := (responses (suspend ?c1))(i := None)\<rparr>)"
      by (simp add: wait_response_found)
    moreover have "ws_connected ?c'" using h(1) by (simp add: run_connected)
    ultimately show ?thesis using h(2) by (simp add: send_command_def Let_def)
  qed
  show ?thesis using 1 r 2 by blast
qed

theorem reply_stored_witness:
  "responses (run [Call ''Page.enable'' None] (listen early_reply early_reply_scenario)) 2
     = Some early_reply
   \<and> fst (send_command ''DOM.enable'' None
            (run [Call ''Page.enable'' None] (listen early_reply early_reply_scenario)))
     = Inr early_reply"
proof -
  have f: "fid early_reply = Some 2" by (simp add: early_reply_def result_reply_def)
  have q: "quiet 2 early_reply_scenario"
    by (simp add: quiet_def early_reply_scenario_def connected_cdp_def new_cdp_def result_reply_def)
  have m: "message_id (run [Call ''Page.enable'' None] (listen early_reply early_reply_scenario)) = 1"
    by (simp add: run_def early_reply_scenario_def connected_cdp_def new_cdp_def)
  have w: "ws_connected early_reply_scenario"
    by (simp add: early_reply_scenario_def connected_cdp_def new_cdp_def)
  show ?thesis
    using reply_stored_under_its_id
      [OF f q, where acts = "[Call ''Page.enable'' None]" and meth = "''DOM.enable''" and p = None]
      m w
    by simp
qed

text \<open>
  Against C2 as stated: the call times out, and the reply that arrives afterwards for its
  id is not dropped: the receive loop stores it in the reply table.
\<close>

theorem late_reply_counterexample:
  "fst (send_command ''Page.navigate'' None (connected_cdp []))
     = Inl (TimeoutError ''No response for Page.navigate'')
   \<and> responses (listen \<lparr>fid = Some 1, payload = [(''result'', JObj [])]\<rparr>
        (snd (send_command ''Page.navigate'' None (connected_cdp [])))) 1
     = Some \<lparr>fid = Some 1, payload = [(''result'', JObj [])]\<rparr>"
proof -
  have "send_command ''Page.navigate'' None (connected_cdp [])
      = (Inl (TimeoutError ''No response for Page.navigate''),
         connected_cdp []\<lparr>message_id := 1,
           ws_sent := [\<lparr>msg_id = 1, msg_method = ''Page.navigate'', msg_params = []\<rparr>]\<rparr>)"
    by (simp add: send_command_def connected_cdp_def new_cdp_def suspend_def params_or_empty_def
        wait_response_idle)
  then show ?thesis by (simp add: listen_def)
qed

text \<open>
  C2 (as the code has it). A call on an open connection that fails, fails with the
  timeout error; there is no pending entry to deregister, so a reply for its id that
  arrives afterwards is stored in the reply table, not dropped. It is delivered to no
  waiter all the same: whatever happens next on the connection, a reply handed to a
  later call carries that call's own, larger id.
\<close>

theorem late_reply_kept_but_never_delivered:
  assumes "keyed c" and "ws_connected c"
    and "send_command meth p c = (Inl e, c1)"
    and "fid late = Some (message_id c1)"
    and "send_command meth' p' (run acts (listen late c1)) = (Inr g, c2)"
  shows "e = TimeoutError (''No response for '' @ meth)
         \<and> message_id c1 = message_id c + 1
         \<and> responses (listen late c1) (message_id c1) = Some late
         \<and> fid g \<noteq> fid late"
proof -
  have e: "e = TimeoutError (''No response for '' @ meth)"
    using assms(2,3) by (rule send_command_fails_timeout)
  have c1: "c1 = snd (send_command meth p c)" using assms(3) by simp
  have m: "message_id c1 = message_id c + 1" unfolding c1 by simp
  have k1: "keyed c1" unfolding c1 using assms(1) by (rule send_command_keyed)
  have r: "responses (listen late c1) (message_id c1) = Some late"
    using assms(4) by (simp add: listen_def)
  have k2: "keyed (run acts (listen late c1))"
    using k1 by (intro run_keyed listen_keyed)
  have "fid g = Some (message_id (run acts (listen late c1)) + 1)"
    using k2 assms(5) by (rule send_command_delivers_own)
  moreover have "message_id c1 \<le> message_id (run acts (listen late c1))"
    using run_message_id [of "listen late c1" acts] by simp
  ultimately have "fid g \<noteq> fid late" using assms(4) by simp
  then show ?thesis using e m r by simp
qed


theorem late_reply_witness:
  "fst (send_command ''Page.navigate'' None late_scenario)
     = Inl (TimeoutError ''No response for Page.navigate'')
   \<and> fst (send_command ''Page.enable'' None
            (run [] (listen \<lparr>fid = Some 1, payload = []\<rparr>
               (snd (send_command ''Page.navigate'' None late_scenario)))))
     = Inr \<lparr>fid = Some 2, payload = [(''result'', JObj [])]\<rparr>
   \<and> fid \<lparr>fid = Some 2, payload = [(''result'', JObj [])]\<rparr> \<noteq> fid \<lparr>fid = Some 1, payload = []\<rparr>"
proof -
  let ?R = "\<lparr>fid = Some 2, payload = [(''result'', JObj [])]\<rparr>"
  let ?L = "\<lparr>fid = Some 1, payload = []\<rparr>"
  let ?c1 = "connected_cdp [[?R]]\<lparr>message_id := 1,
           ws_sent := [\<lparr>msg_id = 1, msg_method = ''Page.navigate'', msg_params = []\<rparr>]\<rparr>"
  have a: "send_command ''Page.navigate'' None late_scenario
      = (Inl (TimeoutError ''No response for Page.navigate''), ?c1)"
    using wait_response_quiet [of "connected_cdp (replicate 100 [] @ [[?R]])\<lparr>message_id := 1,
           ws_sent := [\<lparr>msg_id = 1, msg_method = ''Page.navigate'', msg_params = []\<rparr>]\<rparr>" 1 100 "[[?R]]"
           "''Page.navigate''"]
    by (simp add: late_scenario_def send_command_def connected_cdp_def new_cdp_def suspend_def
        params_or_empty_def)
  have b: "fst (send_command ''Page.enable'' None (run [] (listen ?L ?c1))) = Inr ?R"
    by (simp add: run_def send_command_def connected_cdp_def new_cdp_def suspend_def listen_def
        wait_response_found)
  have b': "send_command ''Page.enable'' None (run [] (listen ?L ?c1))
      = (Inr ?R, snd (send_command ''Page.enable'' None (run [] (listen ?L ?c1))))"
    using b by (metis prod.collapse)
  have k: "keyed late_scenario"
    by (simp add: keyed_def late_scenario_def connected_cdp_def new_cdp_def)
  have w: "ws_connected late_scenario"
    by (simp add: late_scenario_def connected_cdp_def new_cdp_def)
  have i: "fid ?L = Some (message_id ?c1)" by simp
  show ?thesis
    using late_reply_kept_but_never_delivered [OF k w a i b'] a b by simp
qed

section \<open>The commands\<close>

lemma send_command_answered:
  assumes "ws_connected c" and "ws_incoming c = [r] # bs" and "fid r = Some (message_id c + 1)"
  shows "send_command meth p c
    = (Inr r, c\<lparr>message_id := message_id c + 1,
                 responses := (responses c)(message_id c + 1 := None),
                 ws_sent := ws_sent c @ [\<lparr>msg_id = message_id c + 1, msg_method = meth,
                                           msg_params = params_or_empty p\<rparr>],
                 ws_incoming := bs\<rparr>)"
  using assms
  by (simp add: send_command_def Let_def suspend_def listen_def wait_response_found)

lemma and_then_Inr: "m c = (Inr x, c') \<Longrightarrow> and_then m f c = f x c'"
  by (simp add: and_then_def)

lemma and_then_Inl: "m c = (Inl e, c') \<Longrightarrow> and_then m f c = (Inl e, c')"
  by (simp add: and_then_def)

text \<open>
  C4. \<^verbatim>\<open>navigate\<close> sends \<^verbatim>\<open>Page.navigate\<close> and then sends the name of the load event,
  \<^verbatim>\<open>Page.loadEventFired\<close>, as a second command, and waits for the reply to that command;
  it never looks at the event log. Here the browser answers both commands and no event
  arrives: \<^verbatim>\<open>navigate\<close> returns the result of the navigation while the event log is
  still empty.
\<close>

theorem navigate_returns_without_load_event:
  "fst (navigate ''https://example.test'' navigate_scenario)
     = Inr (result_reply 1 [(''frameId'', JStr ''F1'')])
   \<and> events (snd (navigate ''https://example.test'' navigate_scenario)) = []"
  by (simp add: navigate_def navigate_scenario_def connected_cdp_def new_cdp_def and_then_def
      lift_def send_command_answered result_reply_def error_reply_def)

text \<open>
  For a quad that is an upright rectangle, listed from its top left corner clockwise, the
  point \<^verbatim>\<open>click\<close> computes from the entries 0 and 2, and 1 and 5, is the centre.
\<close>

lemma click_point_on_upright_quad:
  assumes "l \<le> r" and "t \<le> b"
  shows "midpoint (JNum l) (JNum r) = Inr (fst (quad_center_spec [l, t, r, t, r, b, l, b]))"
    and "midpoint (JNum t) (JNum b) = Inr (snd (quad_center_spec [l, t, r, t, r, b, l, b]))"
  using assms by (simp_all add: midpoint_def as_number_def quad_center_spec_def min_def max_def)

text \<open>
  C6. For a node whose content quad is not an upright rectangle the point is not the
  centre: on the diamond with corners (10,0), (20,10), (10,20), (0,10), whose centre is
  (10,10), \<^verbatim>\<open>click\<close> presses and releases the mouse at (15,10).
\<close>

theorem click_point_on_rotated_quad:
  "fst (click example_env (JStr ''#go'') click_scenario)
     = Inr (JObj [(''success'', JBool True), (''selector'', JStr ''#go'')])
   \<and> map msg_params (drop 3 (ws_sent (snd (click example_env (JStr ''#go'') click_scenario))))
     = [mouse_event ''mousePressed'' 15 10, mouse_event ''mouseReleased'' 15 10]
   \<and> quad_center_spec [10, 0, 20, 10, 10, 20, 0, 10] = (10, 10)"
  by (simp add: click_def query_selector_def get_dom_def click_scenario_def connected_cdp_def
      new_cdp_def and_then_def lift_def send_command_answered result_reply_def reply_result_def
      attempt_def subscript_def dict_get_def truthy_def diamond_def getitem_def list_index_def
      midpoint_def as_number_def quad_center_spec_def params_or_empty_def)

text \<open>
  C3. \<^verbatim>\<open>execute_script\<close> looks for the value of the script under \<^verbatim>\<open>value\<close> in the result
  of the reply, one level above the remote object that holds it: on the reply a browser
  gives to the evaluation of \<^verbatim>\<open>1+1\<close> it succeeds with \<^verbatim>\<open>None\<close>, not with 2. And an error
  reply makes it raise \<^verbatim>\<open>KeyError\<close>, an outcome that is neither a value nor the text of an
  exception. The exception details, which do lie where the code looks, are reported.
\<close>

theorem execute_script_loses_value:
  "fst (execute_script ''1+1'' evaluate_scenario)
     = Inr (JObj [(''success'', JBool True), (''result'', JNull)])
   \<and> fst (execute_script ''1+1'' refused_scenario) = Inl (KeyError ''result'')
   \<and> fst (execute_script ''null.x'' exception_scenario)
     = Inr (JObj [(''success'', JBool False), (''error'', JStr ''Uncaught'')])"
  by (simp add: execute_script_def evaluate_scenario_def refused_scenario_def
      exception_scenario_def connected_cdp_def new_cdp_def and_then_def lift_def
      send_command_answered result_reply_def script_outcome_def reply_result_def attempt_def
      contains_def dict_get_def subscript_def)

lemma send_command_after:
  "send_command meth p c = (r, c') \<Longrightarrow>
   ws_connected c' = ws_connected c \<and> message_id c' = message_id c + 1
   \<and> ws_sent c' = (if ws_connected c
        then ws_sent c @ [\<lparr>msg_id = message_id c + 1, msg_method = meth, msg_params = params_or_empty p\<rparr>]
        else ws_sent c)"
  using send_command_connected [of meth p c] send_command_message_id [of meth p c]
    send_command_sent [of meth p c] by simp

lemma key_messages_params:
  "map msg_params (key_messages i str)
     = map (\<lambda>ch. [(''type'', JStr ''char''), (''text'', JStr [ch])]) str"
  by (induction str arbitrary: i) simp_all

lemma key_messages_methods:
  "map msg_method (key_messages i str) = replicate (length str) ''Input.dispatchKeyEvent''"
  by (induction str arbitrary: i) simp_all

lemma type_chars_sent:
  "ws_connected c \<Longrightarrow> type_chars str c = (Inr u, c') \<Longrightarrow>
   ws_sent c' = ws_sent c @ key_messages (message_id c + 1) str"
proof (induction str arbitrary: c)
  case Nil
  then show ?case by simp
next
  case (Cons ch cs)
  obtain r c1 where s: "send_command ''Input.dispatchKeyEvent'' (Some (key_event ch)) c = (r, c1)"
    by (cases "send_command ''Input.dispatchKeyEvent'' (Some (key_event ch)) c")
  from Cons.prems(2) s obtain x where r: "r = Inr x" and t: "type_chars cs c1 = (Inr u, c')"
    by (cases r) simp_all
  note a = send_command_after [OF s]
  have "ws_sent c' = ws_sent c1 @ key_messages (message_id c1 + 1) cs"
    using Cons.IH [OF _ t] a Cons.prems(1) by simp
  then show ?case using a Cons.prems(1) by (simp add: params_or_empty_def key_event_def)
qed

lemma query_selector_connected:
  "query_selector selector c = (r, c') \<Longrightarrow> ws_connected c' = ws_connected c"
  by (auto simp: query_selector_def get_dom_def and_then_def lift_def
      split: prod.splits sum.splits dest!: send_command_after)

text \<open>
  C7. For every selector that resolves to a node and every text, a \<^verbatim>\<open>type_text\<close> that
  completes has written to the socket, after the two requests of the resolution, exactly
  this: one \<^verbatim>\<open>DOM.focus\<close> of the resolved node, then one \<^verbatim>\<open>Input.dispatchKeyEvent\<close> request
  per character of the text, in the order of the text, each with the parameters
  \<^verbatim>\<open>{"type": "char", "text": ch}\<close> of its own character, and with consecutive ids.
\<close>

theorem type_text_focus_then_keys:
  assumes "ws_connected c"
    and "query_selector selector c = (Inr node_id, c1)"
    and "truthy node_id"
    and "type_text en selector text c = (Inr res, c2)"
  shows "res = JObj [(''success'', JBool True), (''selector'', selector), (''text'', JStr text)]
       \<and> ws_sent c2
         = ws_sent c1
           @ \<lparr>msg_id = message_id c1 + 1, msg_method = ''DOM.focus'',
               msg_params = [(''nodeId'', node_id)]\<rparr>
           # key_messages (message_id c1 + 2) text
       \<and> map msg_method (drop (length (ws_sent c1)) (ws_sent c2))
         = ''DOM.focus'' # replicate (length text) ''Input.dispatchKeyEvent''
       \<and> map msg_params (drop (length (ws_sent c1)) (ws_sent c2))
         = [(''nodeId'', node_id)]
           # map (\<lambda>ch. [(''type'', JStr ''char''), (''text'', JStr [ch])]) text"
proof -
  have w1: "ws_connected c1" using query_selector_connected [OF assms(2)] assms(1) by simp
  obtain r c3 where f: "send_command ''DOM.focus'' (Some [(''nodeId'', node_id)]) c1 = (r, c3)"
    by (cases "send_command ''DOM.focus'' (Some [(''nodeId'', node_id)]) c1")
  note a = send_command_after [OF f]
  have t: "type_text en selector text c
      = and_then (send_command ''DOM.focus'' (Some [(''nodeId'', node_id)])) (\<lambda>_.
        and_then (type_chars text) (\<lambda>_.
        lift (Inr (JObj [(''success'', JBool True), (''selector'', selector),
                          (''text'', JStr text)])))) c1"
    using assms(2,3) by (simp add: type_text_def and_then_Inr)
  from assms(4) t f obtain x where rx: "r = Inr x"
    by (cases r) (simp_all add: and_then_def)
  obtain r' c4 where k: "type_chars text c3 = (r', c4)" by (cases "type_chars text c3")
  from assms(4) t f rx k have r': "r' = Inr ()" and c4: "c4 = c2"
    and res: "res = JObj [(''success'', JBool True), (''selector'', selector), (''text'', JStr text)]"
    by (cases r'; simp add: and_then_def lift_def)+
  have "ws_sent c2 = ws_sent c3 @ key_messages (message_id c3 + 1) text"
    using type_chars_sent [of c3 _ "()" c2] k r' c4 a w1 by simp
  then show ?thesis using a w1 res
    by (simp add: key_messages_params key_messages_methods params_or_empty_def add.commute)
qed

theorem type_text_witness:
  "map msg_params (drop 2 (ws_sent (snd (type_text example_env (JStr ''#q'') ''ab'' typing_scenario))))
     = [[(''nodeId'', JNum 7)],
        [(''type'', JStr ''char''), (''text'', JStr ''a'')],
        [(''type'', JStr ''char''), (''text'', JStr ''b'')]]
   \<and> map msg_method (drop 2 (ws_sent (snd (type_text example_env (JStr ''#q'') ''ab'' typing_scenario))))
     = [''DOM.focus'', ''Input.dispatchKeyEvent'', ''Input.dispatchKeyEvent'']
   \<and> fst (type_text example_env (JStr ''#q'') ''ab'' typing_scenario)
     = Inr (JObj [(''success'', JBool True), (''selector'', JStr ''#q''), (''text'', JStr ''ab'')])"
proof -
  let ?c1 = "snd (query_selector (JStr ''#q'') typing_scenario)"
  have q: "query_selector (JStr ''#q'') typing_scenario = (Inr (JNum 7), ?c1)"
    by (simp add: query_selector_def get_dom_def typing_scenario_def connected_cdp_def
      new_cdp_def and_then_def lift_def send_command_answered result_reply_def reply_result_def
      attempt_def subscript_def dict_get_def)
  have s1: "ws_sent ?c1 = [\<lparr>msg_id = 1, msg_method = ''DOM.getDocument'', msg_params = []\<rparr>,
      \<lparr>msg_id = 2, msg_method = ''DOM.querySelector'',
        msg_params = [(''nodeId'', JNum 1), (''selector'', JStr ''#q'')]\<rparr>]"
    by (simp add: query_selector_def get_dom_def typing_scenario_def connected_cdp_def
      new_cdp_def and_then_def lift_def send_command_answered result_reply_def reply_result_def
      attempt_def subscript_def dict_get_def params_or_empty_def)
  have ft: "fst (type_text example_env (JStr ''#q'') ''ab'' typing_scenario)
      = Inr (JObj [(''success'', JBool True), (''selector'', JStr ''#q''), (''text'', JStr ''ab'')])"
    by (simp add: type_text_def query_selector_def get_dom_def typing_scenario_def connected_cdp_def
      new_cdp_def and_then_def lift_def send_command_answered result_reply_def reply_result_def
      attempt_def subscript_def dict_get_def truthy_def)
  then have t: "type_text example_env (JStr ''#q'') ''ab'' typing_scenario
      = (Inr (JObj [(''success'', JBool True), (''selector'', JStr ''#q''), (''text'', JStr ''ab'')]),
         snd (type_text example_env (JStr ''#q'') ''ab'' typing_scenario))"
    by (metis prod.collapse)
  have w: "ws_connected typing_scenario"
    by (simp add: typing_scenario_def connected_cdp_def new_cdp_def)
  have "truthy (JNum 7)" by (simp add: truthy_def)
  from type_text_focus_then_keys [OF w q this t]
  have "ws_sent (snd (type_text example_env (JStr ''#q'') ''ab'' typing_scenario))
      = ws_sent ?c1
        @ \<lparr>msg_id = message_id ?c1 + 1, msg_method = ''DOM.focus'',
            msg_params = [(''nodeId'', JNum 7)]\<rparr>
        # key_messages (message_id ?c1 + 2) ''ab''"
    by simp
  then show ?thesis using s1 ft by simp
qed

section \<open>Numeric references\<close>

lemma is_digit_not_special:
  assumes "is_digit ch"
  shows "ch \<noteq> CHR '':''" "ch \<noteq> CHR ''_''" "ch \<noteq> CHR ''-''" "ch \<noteq> CHR ''+''" "\<not> is_space ch"
  using assms by (auto simp: is_digit_def is_space_def)

lemma parse_digits_decimal:
  "ds \<noteq> [] \<Longrightarrow> list_all is_digit ds \<Longrightarrow> parse_digits acc ds = Some (decimal acc ds)"
proof (induction acc ds rule: parse_digits.induct)
  case (1 acc)
  then show ?case by simp
next
  case (2 acc ch)
  then show ?case by simp
next
  case (3 acc ch d ds)
  then show ?case by (simp add: is_digit_not_special(2))
qed

lemma strip_digits: "list_all is_digit ds \<Longrightarrow> strip ds = ds"
proof (cases ds rule: rev_cases)
  case Nil
  then show ?thesis by (simp add: strip_def)
next
  case (snoc ys y)
  assume a: "list_all is_digit ds"
  have 1: "dropWhile is_space ds = ds"
    using a snoc by (cases ys) (simp_all add: is_digit_not_special(5))
  have 2: "dropWhile is_space (rev ds) = rev ds"
    using a snoc by (simp add: is_digit_not_special(5))
  show ?thesis by (simp add: strip_def 1 2)
qed

lemma filter_digits: "list_all is_digit ds \<Longrightarrow> filter is_digit ds = ds"
  by (induction ds) simp_all

lemma int_of_str_digits:
  assumes "ds \<noteq> []" and "list_all is_digit ds" and "length ds \<le> max_str_digits"
  shows "int_of_str ds = Some (decimal 0 ds)"
proof -
  obtain ch cs where ds: "ds = ch # cs" using assms(1) by (cases ds) auto
  have "is_digit ch" using assms(2) ds by simp
  then have n: "ch \<noteq> CHR ''-''" "ch \<noteq> CHR ''+''" by (simp_all add: is_digit_not_special)
  have s: "strip ds = ds" by (rule strip_digits [OF assms(2)])
  have p: "parse_digits 0 ds = Some (decimal 0 ds)" by (rule parse_digits_decimal [OF assms(1,2)])
  have f: "filter is_digit ds = ds" by (rule filter_digits [OF assms(2)])
  have "int_of_str ds
      = (if max_str_digits < length (filter is_digit ds) then None else parse_digits 0 ds)"
    unfolding int_of_str_def s using n ds by (simp add: Let_def)
  then show ?thesis using p f assms(3) by simp
qed

lemma int_of_str_too_long:
  assumes "list_all is_digit ds" and "max_str_digits < length ds"
  shows "int_of_str ds = None"
proof -
  obtain ch cs where ds: "ds = ch # cs" using assms(2) by (cases ds) auto
  have "is_digit ch" using assms(1) ds by simp
  then have n: "ch \<noteq> CHR ''-''" "ch \<noteq> CHR ''+''" by (simp_all add: is_digit_not_special)
  have s: "strip ds = ds" by (rule strip_digits [OF assms(1)])
  have f: "filter is_digit ds = ds" by (rule filter_digits [OF assms(1)])
  have "int_of_str ds
      = (if max_str_digits < length (filter is_digit ds) then None else parse_digits 0 ds)"
    unfolding int_of_str_def s using n ds by (simp add: Let_def)
  then show ?thesis using f assms(2) by simp
qed

lemma split_on_nonempty: "split_on sep xs \<noteq> []"
  by (induction xs) (auto split: list.splits)

lemma split_on_hd: "hd (split_on sep xs) = takeWhile (\<lambda>ch. ch \<noteq> sep) xs"
  by (induction xs) (auto split: list.splits simp: split_on_nonempty)

lemma startswith_append: "startswith s p \<Longrightarrow> s = p @ drop (length p) s"
  unfolding startswith_def by (metis append_take_drop_id)

lemma reference_split:
  assumes "startswith s ''element:''"
  shows "list_index (split_on CHR '':'' s) 1 = Inr (reference_text s)"
proof -
  let ?r = "drop 8 s"
  have s: "s = ''element:'' @ ?r"
    using startswith_append [OF assms] by (simp add: eval_nat_numeral)
  obtain w ws where w: "split_on CHR '':'' ?r = w # ws"
    using split_on_nonempty [of "CHR '':''" ?r] by (cases "split_on CHR '':'' ?r") auto
  have h: "w = reference_text s"
    using split_on_hd [of "CHR '':''" ?r] w by (simp add: reference_text_def)
  have e: "split_on CHR '':'' (''element:'' @ ?r) = ''element'' # w # ws"
    by (simp add: w)
  have "split_on CHR '':'' s = ''element'' # w # ws"
    by (subst s) (rule e)
  then show ?thesis using h by (simp add: list_index_def)
qed

lemma subscript_not_caught:
  "subscript d k = Inl e \<Longrightarrow> caught s e = Inl e"
  by (auto simp: subscript_def caught_def split: json.splits option.splits)

text \<open>What the block does with a string that starts with \<^verbatim>\<open>element:\<close>, on a registry that
  is a list.\<close>

lemma resolve_reference_element:
  assumes "startswith s ''element:''"
  shows "resolve_reference (JArr els) s
    = (case int_of_str (reference_text s) of
         None \<Rightarrow> Inr (Inl (invalid_format s))
       | Some n \<Rightarrow>
           if 1 \<le> n \<and> n \<le> int (length els)
           then (case subscript (els ! nat (n - 1)) ''selector'' of
                   Inl e \<Rightarrow> Inl e
                 | Inr sel \<Rightarrow> Inr (Inr sel))
           else Inr (Inl (number_not_found n)))"
proof (cases "int_of_str (reference_text s)")
  case None
  then show ?thesis
    unfolding resolve_reference_def
    by (simp only: assms reference_split [OF assms] if_True sum.case option.case)
       (simp add: caught_def)
next
  case (Some n)
  have g: "attempt (getitem (JArr els) (n - 1)) (\<lambda>element. subscript element ''selector'')
      = subscript (els ! nat (n - 1)) ''selector''"
    if "1 \<le> n" "n \<le> int (length els)"
    using that by (simp add: getitem_def list_index_def attempt_def)
  show ?thesis
  proof (cases "1 \<le> n \<and> n \<le> int (length els)")
    case True
    then have n: "0 < n" "n \<le> int (length els)" by simp_all
    show ?thesis
    proof (cases "subscript (els ! nat (n - 1)) ''selector''")
      case (Inl e)
      then show ?thesis
        unfolding resolve_reference_def
        by (simp only: assms reference_split [OF assms] if_True sum.case option.case Some)
           (simp add: py_len_def n g True subscript_not_caught)
    next
      case (Inr sel)
      then show ?thesis
        unfolding resolve_reference_def
        by (simp only: assms reference_split [OF assms] if_True sum.case option.case Some)
           (simp add: py_len_def n g True)
    qed
  next
    case False
    then show ?thesis
      unfolding resolve_reference_def
      by (simp only: assms reference_split [OF assms] if_True sum.case option.case Some)
         (auto simp: py_len_def)
  qed
qed

lemma reference_text_digits:
  assumes "list_all is_digit ds"
  shows "startswith (''element:'' @ ds) ''element:''"
    and "reference_text (''element:'' @ ds) = ds"
proof -
  show "startswith (''element:'' @ ds) ''element:''" by (simp add: startswith_def)
  have "\<forall>ch \<in> set ds. ch \<noteq> CHR '':''"
    using assms by (auto simp: list_all_iff dest: is_digit_not_special(1))
  then show "reference_text (''element:'' @ ds) = ds"
    by (simp add: reference_text_def)
qed

lemma ensure_cdp_present: "cdp srv = Some c \<Longrightarrow> ensure_cdp en srv = (Inr (), srv)"
  by (simp add: ensure_cdp_def)

lemma ensure_cdp_registry: "ensure_cdp en srv = (r, s1) \<Longrightarrow> last_elements s1 = last_elements srv"
  by (auto simp: ensure_cdp_def split: option.splits prod.splits)

lemma browser_click_connected:
  assumes "ensure_cdp en srv = (Inr u, s1)"
  shows "browser_click en s srv
    = (case resolve_reference (last_elements srv) s of
         Inl e \<Rightarrow> (Inl e, s1)
       | Inr (Inl early) \<Rightarrow> (Inr early, s1)
       | Inr (Inr sel) \<Rightarrow> on_cdp (click en sel) s1)"
  using ensure_cdp_registry [OF assms] by (simp add: browser_click_def assms)

lemma browser_type_connected:
  assumes "ensure_cdp en srv = (Inr u, s1)"
  shows "browser_type en s str srv
    = (case resolve_reference (last_elements srv) s of
         Inl e \<Rightarrow> (Inl e, s1)
       | Inr (Inl early) \<Rightarrow> (Inr early, s1)
       | Inr (Inr sel) \<Rightarrow> on_cdp (type_text en sel str) s1)"
  using ensure_cdp_registry [OF assms] by (simp add: browser_type_def assms)

text \<open>
  C5 (as the code has it). \<^verbatim>\<open>browser_click\<close> first makes sure of the connection; when that
  fails, the error is raised whatever the selector. Otherwise: a selector that does not
  start with \<^verbatim>\<open>element:\<close> is passed to \<^verbatim>\<open>click\<close> unchanged, as a structural selector. Every
  selector that starts with \<^verbatim>\<open>element:\<close> is a numeric reference and is never passed on:
  its number \<open>N\<close> is \<^verbatim>\<open>int\<close> of the text between the first and the second colon; when that
  is no integer the tool returns "Invalid element number format"; when \<open>1 \<le> N \<le>\<close> the
  size of the registry, the click goes to the selector of the \<open>N\<close>th entry (counting from
  1); otherwise, and so whenever the registry is empty, the tool returns "Element number
  N not found". For \<^verbatim>\<open>element:\<close> followed by decimal digits, that text is the digits, and
  \<^verbatim>\<open>int\<close> gives the number they denote when there are at most 4300 of them, and fails
  when there are more.
\<close>

theorem click_selector_resolution:
  assumes "ensure_cdp en srv = (r, s1)"
  shows "(\<forall>e. r = Inl e \<longrightarrow> browser_click en s srv = (Inl e, s1))
       \<and> (r = Inr () \<and> \<not> startswith s ''element:'' \<longrightarrow>
            browser_click en s srv = on_cdp (click en (JStr s)) s1)
       \<and> (r = Inr () \<and> startswith s ''element:'' \<and> last_elements srv = JArr els \<longrightarrow>
            browser_click en s srv
            = (case int_of_str (reference_text s) of
                 None \<Rightarrow> (Inr (invalid_format s), s1)
               | Some n \<Rightarrow>
                   if 1 \<le> n \<and> n \<le> int (length els)
                   then (case subscript (els ! nat (n - 1)) ''selector'' of
                           Inl e \<Rightarrow> (Inl e, s1)
                         | Inr sel \<Rightarrow> on_cdp (click en sel) s1)
                   else (Inr (number_not_found n), s1)))
       \<and> (ds \<noteq> [] \<and> list_all is_digit ds \<longrightarrow>
            startswith (''element:'' @ ds) ''element:''
            \<and> reference_text (''element:'' @ ds) = ds
            \<and> int_of_str ds = (if length ds \<le> 4300 then Some (decimal 0 ds) else None))"
proof -
  have a: "browser_click en s srv = (Inl e, s1)" if "r = Inl e" for e
    using assms that by (simp add: browser_click_def)
  have b: "browser_click en s srv = on_cdp (click en (JStr s)) s1"
    if "r = Inr ()" "\<not> startswith s ''element:''"
    using browser_click_connected [of en srv "()" s1 s] assms that
    by (simp add: resolve_reference_def)
  have c: "browser_click en s srv
            = (case int_of_str (reference_text s) of
                 None \<Rightarrow> (Inr (invalid_format s), s1)
               | Some n \<Rightarrow>
                   if 1 \<le> n \<and> n \<le> int (length els)
                   then (case subscript (els ! nat (n - 1)) ''selector'' of
                           Inl e \<Rightarrow> (Inl e, s1)
                         | Inr sel \<Rightarrow> on_cdp (click en sel) s1)
                   else (Inr (number_not_found n), s1))"
    if h: "r = Inr ()" "startswith s ''element:''" "last_elements srv = JArr els"
  proof -
    have "browser_click en s srv
        = (case resolve_reference (JArr els) s of
             Inl e \<Rightarrow> (Inl e, s1)
           | Inr (Inl early) \<Rightarrow> (Inr early, s1)
           | Inr (Inr sel) \<Rightarrow> on_cdp (click en sel) s1)"
      using browser_click_connected [of en srv "()" s1 s] assms h by simp
    then show ?thesis
      unfolding resolve_reference_element [OF h(2)]
      by (simp split: option.splits sum.splits)
  qed
  have d: "startswith (''element:'' @ ds) ''element:''
            \<and> reference_text (''element:'' @ ds) = ds
            \<and> int_of_str ds = (if length ds \<le> 4300 then Some (decimal 0 ds) else None)"
    if h: "ds \<noteq> []" "list_all is_digit ds"
    using reference_text_digits [OF h(2)] int_of_str_digits [OF h] int_of_str_too_long [OF h(2)]
    by (simp add: max_str_digits_def)
  show ?thesis using a b c d by blast
qed

lemma digit_facts:
  "is_digit CHR ''1''" "is_digit CHR ''2''" "is_digit CHR ''3''"
  "digit_val CHR ''1'' = 1" "digit_val CHR ''2'' = 2" "digit_val CHR ''3'' = 3"
  by (simp_all add: is_digit_def digit_val_def)

theorem click_selector_witness:
  "browser_click example_env ''#go'' example_server
     = on_cdp (click example_env (JStr ''#go'')) example_server
   \<and> browser_click example_env ''element:2'' example_server
     = on_cdp (click example_env (JStr ''button#go'')) example_server
   \<and> browser_click example_env ''element:3'' example_server
     = (Inr (number_not_found 3), example_server)
   \<and> browser_click example_env ''element:3'' new_server
     = (Inl (Exception
          ''No Chrome targets found. Is Chrome running with --remote-debugging-port=9222?''),
        new_server\<lparr>cdp := Some new_cdp\<rparr>)"
proof -
  have c: "ensure_cdp example_env example_server = (Inr (), example_server)"
    by (simp add: ensure_cdp_def example_server_def)
  have n: "ensure_cdp example_env new_server
      = (Inl (Exception
          ''No Chrome targets found. Is Chrome running with --remote-debugging-port=9222?''),
         new_server\<lparr>cdp := Some new_cdp\<rparr>)"
    by (simp add: ensure_cdp_def new_server_def connect_def example_env_def truthy_def)
  let ?els = "[JObj [(''tag'', JStr ''a''), (''selector'', JStr ''a#home'')],
              JObj [(''tag'', JStr ''button''), (''selector'', JStr ''button#go'')]]"
  have l: "last_elements example_server = JArr ?els" by (simp add: example_server_def)
  have 1: "browser_click example_env ''#go'' example_server
     = on_cdp (click example_env (JStr ''#go'')) example_server"
    using click_selector_resolution [OF c, where s = "''#go''"]
    by (simp add: startswith_def)
  have i2: "int_of_str ''2'' = Some 2" and i3: "int_of_str ''3'' = Some 3"
    using click_selector_resolution [OF c, where ds = "''2''"]
      click_selector_resolution [OF c, where ds = "''3''"] digit_facts
    by simp_all
  have r2: "startswith ''element:2'' ''element:''" "reference_text ''element:2'' = ''2''"
    and r3: "startswith ''element:3'' ''element:''" "reference_text ''element:3'' = ''3''"
    by (simp_all add: startswith_def reference_text_def)
  have 2: "browser_click example_env ''element:2'' example_server
     = on_cdp (click example_env (JStr ''button#go'')) example_server"
    using click_selector_resolution [OF c, where s = "''element:2''" and els = ?els] l r2 i2
    by (simp add: subscript_def)
  have 3: "browser_click example_env ''element:3'' example_server
     = (Inr (number_not_found 3), example_server)"
    using click_selector_resolution [OF c, where s = "''element:3''" and els = ?els] l r3 i3
    by simp
  have 4: "browser_click example_env ''element:3'' new_server
     = (Inl (Exception
          ''No Chrome targets found. Is Chrome running with --remote-debugging-port=9222?''),
        new_server\<lparr>cdp := Some new_cdp\<rparr>)"
    using click_selector_resolution [OF n, where s = "''element:3''"] by simp
  show ?thesis using 1 2 3 4 by simp
qed

text \<open>
  Against C5 as stated: \<^verbatim>\<open>element:abc\<close> is not of the form \<^verbatim>\<open>element:<positive integer>\<close>,
  yet it is not passed through as a structural selector (which would send a request, and
  here run into the timeout): the tool returns "Invalid element number format" at once.
  And \<^verbatim>\<open>element:2:nd\<close>, not of that form either, is taken as the numeric reference 2.
\<close>

theorem click_selector_counterexample:
  "browser_click example_env ''element:abc'' example_server
     = (Inr (invalid_format ''element:abc''), example_server)
   \<and> fst (on_cdp (click example_env (JStr ''element:abc'')) example_server)
     = Inl (TimeoutError ''No response for DOM.getDocument'')
   \<and> browser_click example_env ''element:2:nd'' example_server
     = on_cdp (click example_env (JStr ''button#go'')) example_server"
proof -
  have c: "ensure_cdp example_env example_server = (Inr (), example_server)"
    by (simp add: ensure_cdp_def example_server_def)
  have l: "last_elements example_server
      = JArr [JObj [(''tag'', JStr ''a''), (''selector'', JStr ''a#home'')],
              JObj [(''tag'', JStr ''button''), (''selector'', JStr ''button#go'')]]"
    by (simp add: example_server_def)
  have sa: "startswith ''element:abc'' ''element:''" and sb: "startswith ''element:2:nd'' ''element:''"
    by (simp_all add: startswith_def)
  have ia: "int_of_str (reference_text ''element:abc'') = None"
    by (simp add: reference_text_def int_of_str_def strip_def is_space_def is_digit_def Let_def)
  have ib: "int_of_str (reference_text ''element:2:nd'') = Some 2"
    using int_of_str_digits [of "''2''"] digit_facts
    by (simp add: reference_text_def max_str_digits_def)
  have 1: "browser_click example_env ''element:abc'' example_server
     = (Inr (invalid_format ''element:abc''), example_server)"
    unfolding browser_click_connected [OF c] l resolve_reference_element [OF sa] ia by simp
  have 2: "fst (on_cdp (click example_env (JStr ''element:abc'')) example_server)
     = Inl (TimeoutError ''No response for DOM.getDocument'')"
    by (simp add: on_cdp_def example_server_def click_def query_selector_def get_dom_def
        and_then_def send_command_def connected_cdp_def new_cdp_def suspend_def
        wait_response_idle split: prod.splits)
  have 3: "browser_click example_env ''element:2:nd'' example_server
     = on_cdp (click example_env (JStr ''button#go'')) example_server"
    unfolding browser_click_connected [OF c] l resolve_reference_element [OF sb] ib
    by (simp add: subscript_def)
  show ?thesis using 1 2 3 by simp
qed

section \<open>The overlay renderer\<close>

declare str_nat.simps [simp del]

lemma caption_texts_append: "caption_texts (ss @ ts) = caption_texts ss @ caption_texts ts"
  by (induction ss rule: caption_texts.induct) simp_all

lemma circles_append: "circles (ss @ ts) = circles ss @ circles ts"
  by (induction ss rule: circles.induct) simp_all

lemma located_point:
  assumes "located el"
  obtains x y where "subscript el ''x'' = Inr (JNum x)" and "subscript el ''y'' = Inr (JNum y)"
  using assms by (auto simp: located_def split: sum.splits json.splits)

lemma draw_overlay_located:
  assumes "located el"
  shows "\<exists>c n. draw_overlay en idx el im = Inr (im\<lparr>img_drawn := img_drawn im @ [c, n]\<rparr>)
           \<and> caption_texts [c, n] = [str_nat idx] \<and> circles [c, n] = [marker_point el]"
proof -
  from assms obtain x y where xy: "subscript el ''x'' = Inr (JNum x)" "subscript el ''y'' = Inr (JNum y)"
    by (rule located_point)
  let ?bbox = "textbbox en (str_nat idx)"
  let ?c = "Ellipse (trunc x - 15, trunc y - 15) (trunc x + 15, trunc y + 15)
              (0, 123, 255, 200) (255, 255, 255, 255) 2"
  let ?n = "Caption (trunc x - (fst (snd (snd ?bbox)) - fst ?bbox) div 2,
                     trunc y - (snd (snd (snd ?bbox)) - fst (snd ?bbox)) div 2)
              (str_nat idx) (255, 255, 255, 255)"
  have "draw_overlay en idx el im = Inr (im\<lparr>img_drawn := img_drawn im @ [?c, ?n]\<rparr>)"
    by (simp add: draw_overlay_def attempt_def xy py_int_def Let_def)
  moreover have "caption_texts [?c, ?n] = [str_nat idx]" by simp
  moreover have "circles [?c, ?n] = [marker_point el]"
    by (simp add: marker_point_def xy py_int_def)
  ultimately show ?thesis by blast
qed

lemma draw_overlays_located:
  "list_all located els \<Longrightarrow>
   \<exists>new. draw_overlays en idx els im = Inr (im\<lparr>img_drawn := img_drawn im @ new\<rparr>)
     \<and> length new = 2 * length els
     \<and> caption_texts new = map str_nat [idx ..< idx + length els]
     \<and> circles new = map marker_point els"
proof (induction els arbitrary: idx im)
  case Nil
  then show ?case by simp
next
  case (Cons el els)
  from Cons.prems have l: "located el" and ls: "list_all located els" by simp_all
  from draw_overlay_located [OF l, of en idx im] obtain c n where
    d: "draw_overlay en idx el im = Inr (im\<lparr>img_drawn := img_drawn im @ [c, n]\<rparr>)"
    and t: "caption_texts [c, n] = [str_nat idx]" and p: "circles [c, n] = [marker_point el]"
    by blast
  from Cons.IH [OF ls, of "Suc idx" "im\<lparr>img_drawn := img_drawn im @ [c, n]\<rparr>"] obtain new where
    r: "draw_overlays en (Suc idx) els (im\<lparr>img_drawn := img_drawn im @ [c, n]\<rparr>)
        = Inr (im\<lparr>img_drawn := img_drawn im @ [c, n] @ new\<rparr>)"
    and n: "length new = 2 * length els"
    and ts: "caption_texts new = map str_nat [Suc idx ..< Suc idx + length els]"
    and ps: "circles new = map marker_point els"
    by auto
  have "draw_overlays en idx (el # els) im = Inr (im\<lparr>img_drawn := img_drawn im @ ([c, n] @ new)\<rparr>)"
    using d r by simp
  moreover have "length ([c, n] @ new) = 2 * length (el # els)" using n by simp
  moreover have "caption_texts ([c, n] @ new) = map str_nat [idx ..< idx + length (el # els)]"
    unfolding caption_texts_append t ts
    using upt_conv_Cons [of idx "idx + Suc (length els)"] by simp
  moreover have "circles ([c, n] @ new) = map marker_point (el # els)"
    unfolding circles_append p ps by simp
  ultimately show ?case by blast
qed

lemma add_overlays_mode_mismatch:
  assumes "img_mode im \<noteq> RGB" and "img_mode im \<noteq> RGBA"
  shows "add_overlays en (Encoded fmt im) elements = Inl ValueError"
  using assms by (simp add: add_overlays_def)

text \<open>
  C8 (as the code has it). Take a frame that decodes to an image, in whatever format, and
  a registry whose entries carry a point. When the image is in mode \<^verbatim>\<open>RGB\<close> or \<^verbatim>\<open>RGBA\<close>,
  as a captured frame is, \<^verbatim>\<open>_add_overlays\<close> returns a buffer encoded as PNG: it decodes to
  an image of the same mode, width, height and original content as the input, on which
  one circle and one number have been drawn per registry entry, in registry order; the
  circles are centred on the entries' points and the numbers are 1 to N. When the image
  is in any other mode, \<^verbatim>\<open>_add_overlays\<close> fails with the library's \<^verbatim>\<open>ValueError\<close>. The input
  buffer is a value of the model as it is an immutable \<^verbatim>\<open>bytes\<close> object of the program:
  nothing changes it.
\<close>

theorem add_overlays_png_same_size:
  assumes "list_all located els"
  shows "if img_mode im = RGB \<or> img_mode im = RGBA
         then (\<exists>im'. add_overlays en (Encoded fmt im) (JArr els) = Inr (Encoded PNG im')
                 \<and> img_mode im' = img_mode im
                 \<and> img_width im' = img_width im \<and> img_height im' = img_height im
                 \<and> img_base im' = img_base im
                 \<and> (\<exists>new. img_drawn im' = img_drawn im @ new
                       \<and> length new = 2 * length els
                       \<and> caption_texts new = map str_nat [1 ..< Suc (length els)]
                       \<and> circles new = map marker_point els))
         else add_overlays en (Encoded fmt im) (JArr els) = Inl ValueError"
proof (cases "img_mode im = RGB \<or> img_mode im = RGBA")
  case False
  then show ?thesis using add_overlays_mode_mismatch [of im en fmt "JArr els"] by simp
next
  case True
  from draw_overlays_located [OF assms, of en 1 im] obtain new where
    r: "draw_overlays en 1 els im = Inr (im\<lparr>img_drawn := img_drawn im @ new\<rparr>)"
    and n: "length new = 2 * length els"
    and ts: "caption_texts new = map str_nat [1 ..< 1 + length els]"
    and ps: "circles new = map marker_point els"
    by blast
  have "add_overlays en (Encoded fmt im) (JArr els)
      = Inr (Encoded PNG (im\<lparr>img_drawn := img_drawn im @ new\<rparr>))"
    using r True by (auto simp add: add_overlays_def iterate_def attempt_def)
  then have "\<exists>im'. add_overlays en (Encoded fmt im) (JArr els) = Inr (Encoded PNG im')
                 \<and> img_mode im' = img_mode im
                 \<and> img_width im' = img_width im \<and> img_height im' = img_height im
                 \<and> img_base im' = img_base im
                 \<and> (\<exists>new. img_drawn im' = img_drawn im @ new
                       \<and> length new = 2 * length els
                       \<and> caption_texts new = map str_nat [1 ..< Suc (length els)]
                       \<and> circles new = map marker_point els)"
    using n ts ps by auto
  then show ?thesis using True by simp
qed

theorem add_overlays_witness:
  "(\<exists>im'. add_overlays example_env (Encoded PNG example_frame) (JArr example_registry)
            = Inr (Encoded PNG im')
         \<and> img_width im' = 800 \<and> img_height im' = 600
         \<and> caption_texts (img_drawn im') = [''1'', ''2'', ''3'']
         \<and> circles (img_drawn im') = [(40, 20), (150, 80), (300, 80)])
   \<and> add_overlays example_env (Encoded GIF (example_frame\<lparr>img_mode := Palette\<rparr>))
        (JArr example_registry) = Inl ValueError"
proof -
  have l: "list_all located example_registry"
    by (simp add: example_registry_def located_def subscript_def)
  have s: "map str_nat [1 ..< Suc (length example_registry)] = [''1'', ''2'', ''3'']"
  proof -
    have d: "digit_char (Suc 0) = CHR ''1''" "digit_char (Suc (Suc 0)) = CHR ''2''"
      "digit_char (Suc (Suc (Suc 0))) = CHR ''3''"
      by code_simp+
    show ?thesis by (simp add: example_registry_def upt_conv_Cons str_nat.simps d)
  qed
  have m: "map marker_point example_registry = [(40, 20), (150, 80), (300, 80)]"
  proof -
    have f: "\<lfloor>301 / 2 :: rat\<rfloor> = 150" by (rule floor_unique) simp_all
    show ?thesis
      by (simp add: example_registry_def marker_point_def subscript_def py_int_def trunc_def f)
  qed
  have a: "\<exists>im'. add_overlays example_env (Encoded PNG example_frame) (JArr example_registry)
            = Inr (Encoded PNG im')
         \<and> img_width im' = 800 \<and> img_height im' = 600
         \<and> caption_texts (img_drawn im') = [''1'', ''2'', ''3'']
         \<and> circles (img_drawn im') = [(40, 20), (150, 80), (300, 80)]"
    using add_overlays_png_same_size [OF l, of example_frame example_env PNG] s m
    by (auto simp: example_frame_def)
  have b: "add_overlays example_env (Encoded GIF (example_frame\<lparr>img_mode := Palette\<rparr>))
        (JArr example_registry) = Inl ValueError"
    using add_overlays_png_same_size [OF l, of "example_frame\<lparr>img_mode := Palette\<rparr>" example_env GIF]
    by simp
  show ?thesis using a b by blast
qed

text \<open>
  Against C8 as stated: the output is written with \<^verbatim>\<open>format='PNG'\<close> whatever the input
  was, so a JPEG frame (in mode \<^verbatim>\<open>RGB\<close>, as JPEG frames are) comes back as a PNG buffer.
\<close>

theorem add_overlays_format_counterexample:
  "add_overlays example_env (Encoded JPEG example_frame) (JArr [])
     = Inr (Encoded PNG example_frame)
   \<and> JPEG \<noteq> PNG"
  by (simp add: add_overlays_def iterate_def attempt_def example_frame_def)

section \<open>The registry between two screenshots\<close>

lemma and_then_Inr_elim:
  assumes "and_then m f c = (Inr y, c')"
  obtains x c1 where "m c = (Inr x, c1)" and "f x c1 = (Inr y, c')"
proof (cases "m c")
  case (Pair r c1)
  with assms show ?thesis by (cases r) (simp_all add: and_then_def that)
qed

lemma screenshot_without_overlays:
  assumes "screenshot en full_page False c = (Inr shot, c1)"
  shows "snd shot = JArr []"
proof -
  from assms [unfolded screenshot_def] obtain u :: unit and ca where
    1: "and_then (send_command ''Page.captureScreenshot'' None) (\<lambda>result.
        and_then (lift (attempt (reply_result result) (\<lambda>r. subscript r ''data''))) (\<lambda>data.
        and_then (lift (decode_base64 en data)) (\<lambda>screenshot_bytes.
          if False then
            and_then get_interactive_elements (\<lambda>elements.
            and_then (lift (add_overlays en screenshot_bytes elements)) (\<lambda>annotated.
            lift (Inr (annotated, elements))))
          else lift (Inr (screenshot_bytes, JArr []))))) ca = (Inr shot, c1)"
    by (rule and_then_Inr_elim)
  from 1 obtain result cb where
    2: "and_then (lift (attempt (reply_result result) (\<lambda>r. subscript r ''data''))) (\<lambda>data.
        and_then (lift (decode_base64 en data)) (\<lambda>screenshot_bytes.
          if False then
            and_then get_interactive_elements (\<lambda>elements.
            and_then (lift (add_overlays en screenshot_bytes elements)) (\<lambda>annotated.
            lift (Inr (annotated, elements))))
          else lift (Inr (screenshot_bytes, JArr [])))) cb = (Inr shot, c1)"
    by (rule and_then_Inr_elim)
  from 2 obtain data cc where
    3: "and_then (lift (decode_base64 en data)) (\<lambda>screenshot_bytes.
          if False then
            and_then get_interactive_elements (\<lambda>elements.
            and_then (lift (add_overlays en screenshot_bytes elements)) (\<lambda>annotated.
            lift (Inr (annotated, elements))))
          else lift (Inr (screenshot_bytes, JArr []))) cc = (Inr shot, c1)"
    by (rule and_then_Inr_elim)
  from 3 obtain bytes cd where "lift (Inr (bytes, JArr [])) cd = (Inr shot, c1)"
    by (rule and_then_Inr_elim) simp
  then show ?thesis by (auto simp: lift_def)
qed

lemma failure_not_success: "subscript (failure e) ''success'' \<noteq> Inr (JBool True)"
  by (simp add: failure_def subscript_def)

lemma on_cdp_cases:
  assumes "on_cdp m s = (r, s')"
  obtains "cdp s = None" and "r = Inl AttributeError" and "s' = s"
  | c c' where "cdp s = Some c" and "m c = (r, c')" and "s' = s\<lparr>cdp := Some c'\<rparr>"
  using assms by (cases "cdp s") (auto simp: on_cdp_def split: prod.splits)

lemma guarded_state: "snd (guarded r) = snd r"
  by (cases r) (simp add: guarded_def split: sum.splits)

lemma screenshot_success:
  assumes "browser_screenshot en analyze question full_page with_overlays srv = (Inr res, srv1)"
    and "subscript res ''success'' = Inr (JBool True)"
  shows "\<exists>c0 shot c1. cdp (snd (ensure_cdp en srv)) = Some c0
           \<and> screenshot en full_page with_overlays c0 = (Inr shot, c1)
           \<and> last_elements srv1 = snd shot \<and> cdp srv1 = Some c1"
proof -
  obtain r0 s1 where e: "ensure_cdp en srv = (r0, s1)" by (cases "ensure_cdp en srv")
  obtain r2 s2 where o: "on_cdp (screenshot en full_page with_overlays) s1 = (r2, s2)"
    by (cases "on_cdp (screenshot en full_page with_overlays) s1")
  from assms(1) e have r0: "\<exists>u. r0 = Inr u"
    by (cases r0) (simp_all add: browser_screenshot_def)
  have r2: "\<exists>shot. r2 = Inr shot"
  proof (cases r2)
    case (Inl x)
    with assms e o r0 show ?thesis
      by (auto simp: browser_screenshot_def failure_not_success)
  next
    case (Inr shot)
    then show ?thesis by simp
  qed
  then obtain shot where shot: "r2 = Inr shot" by blast
  have w: "can_write en"
    using assms e o r0 shot by (auto simp: browser_screenshot_def failure_not_success split: if_splits)
  have s: "srv1 = s2\<lparr>last_elements := snd shot, screenshot_file := Some (fst shot)\<rparr>"
    using assms(1) e o r0 shot w guarded_state
      [of "(screenshot_result en analyze question with_overlays (fst shot) (snd shot),
            s2\<lparr>last_elements := snd shot, screenshot_file := Some (fst shot)\<rparr>)"]
    by (auto simp: browser_screenshot_def)
  from o shot obtain c0 c1 where "cdp s1 = Some c0"
    and "screenshot en full_page with_overlays c0 = (Inr shot, c1)" and "s2 = s1\<lparr>cdp := Some c1\<rparr>"
    by (auto elim!: on_cdp_cases)
  then show ?thesis using e s
    by (intro exI [of _ c0] exI [of _ shot] exI [of _ c1]) simp
qed



lemma on_cdp_keeps:
  assumes "cleared s"
  shows "cleared (snd (on_cdp m s))"
proof -
  obtain r s' where o: "on_cdp m s = (r, s')" by (cases "on_cdp m s")
  from o assms show ?thesis by (auto elim!: on_cdp_cases simp: cleared_def)
qed

lemma guarded_on_cdp_keeps:
  assumes "cleared s"
  shows "cleared (snd (guarded (case on_cdp m s of (Inl e, s2) \<Rightarrow> (Inl e, s2)
                                 | (Inr v, s2) \<Rightarrow> (Inr (f v), s2))))"
proof -
  obtain r s' where o: "on_cdp m s = (r, s')" by (cases "on_cdp m s")
  have "cleared s'" using on_cdp_keeps [OF assms, of m] o by simp
  then show ?thesis using o by (cases r) (simp_all add: guarded_state)
qed

lemma resolve_keeps:
  assumes "cleared s"
  shows "cleared (snd (case resolve_reference (last_elements s) selector of
                         Inl e \<Rightarrow> (Inl e, s)
                       | Inr (Inl early) \<Rightarrow> (Inr early, s)
                       | Inr (Inr sel) \<Rightarrow> on_cdp (m sel) s))"
  using assms on_cdp_keeps [OF assms]
  by (auto split: sum.splits)

lemma screenshot_keeps:
  assumes "cleared s"
  shows "cleared (snd (browser_screenshot en analyze question full_page False s))"
proof -
  from assms obtain c where c: "cdp s = Some c" by (auto simp: cleared_def)
  note e = ensure_cdp_present [OF c]
  obtain r s2 where o: "on_cdp (screenshot en full_page False) s = (r, s2)"
    by (cases "on_cdp (screenshot en full_page False) s")
  have s2: "cleared s2" using on_cdp_keeps [OF assms, of "screenshot en full_page False"] o by simp
  show ?thesis
  proof (cases r)
    case (Inl x)
    then show ?thesis using o s2 by (simp add: browser_screenshot_def e)
  next
    case (Inr shot)
    from o Inr c obtain c1 where "screenshot en full_page False c = (Inr shot, c1)"
      by (auto elim!: on_cdp_cases)
    then have "snd shot = JArr []" by (rule screenshot_without_overlays)
    then show ?thesis using o s2 Inr
      by (simp add: browser_screenshot_def e guarded_state cleared_def)
  qed
qed

lemma call_tool_keeps:
  assumes "cleared s" and "\<not> overlay_screenshot req"
  shows "cleared (snd (call_tool en req s))"
proof -
  from assms(1) obtain c where c: "cdp s = Some c" by (auto simp: cleared_def)
  note e = ensure_cdp_present [OF c]
  show ?thesis
  proof (cases req)
    case (Navigate url)
    then show ?thesis
      using guarded_on_cdp_keeps [OF assms(1)] by (simp add: browser_navigate_def e)
  next
    case (Screenshot analyze question full_page with_overlays)
    then show ?thesis using assms(2) screenshot_keeps [OF assms(1)] by simp
  next
    case GetDom
    then show ?thesis
      using guarded_on_cdp_keeps [OF assms(1)] by (simp add: browser_get_dom_def e)
  next
    case (Click selector)
    then show ?thesis
      using resolve_keeps [OF assms(1), where selector = selector and m = "click en"] by (simp add: browser_click_def e)
  next
    case (TypeText selector str)
    then show ?thesis
      using resolve_keeps [OF assms(1), where selector = selector and m = "\<lambda>sel. type_text en sel str"]
      by (simp add: browser_type_def e)
  next
    case (ExecuteScript script)
    then show ?thesis using on_cdp_keeps [OF assms(1)] by (simp add: browser_execute_script_def e)
  next
    case GetContent
    then show ?thesis
      using guarded_on_cdp_keeps [OF assms(1)] by (simp add: browser_get_content_def e)
  next
    case GetConsole
    then show ?thesis
      using guarded_on_cdp_keeps [OF assms(1)] by (simp add: browser_get_console_def e)
  next
    case GetNetwork
    then show ?thesis
      using guarded_on_cdp_keeps [OF assms(1)] by (simp add: browser_get_network_def e)
  qed
qed

lemma serve_keeps:
  "cleared s \<Longrightarrow> list_all (\<lambda>p. \<not> overlay_screenshot (snd p)) reqs \<Longrightarrow> cleared (serve reqs s)"
  unfolding serve_def
proof (induction reqs arbitrary: s)
  case Nil
  then show ?case by simp
next
  case (Cons p reqs)
  then show ?case using call_tool_keeps [of s "snd p" "fst p"] by simp
qed


lemma stale_when_cleared:
  assumes "cleared s" and "ds \<noteq> []" and "list_all is_digit ds" and "length ds \<le> 4300"
  shows "browser_click en (''element:'' @ ds) s = (Inr (number_not_found (decimal 0 ds)), s)"
    and "browser_type en (''element:'' @ ds) str s = (Inr (number_not_found (decimal 0 ds)), s)"
proof -
  from assms(1) obtain c where c: "cdp s = Some c" and l: "last_elements s = JArr []"
    by (auto simp: cleared_def)
  note e = ensure_cdp_present [OF c]
  have r: "resolve_reference (last_elements s) (''element:'' @ ds)
      = Inr (Inl (number_not_found (decimal 0 ds)))"
  proof -
    have i: "int_of_str ds = Some (decimal 0 ds)"
      using assms(2,3,4) by (intro int_of_str_digits) (simp_all add: max_str_digits_def)
    show ?thesis
      unfolding l resolve_reference_element [OF reference_text_digits(1) [OF assms(3)]]
        reference_text_digits(2) [OF assms(3)] i
      by auto
  qed
  show "browser_click en (''element:'' @ ds) s = (Inr (number_not_found (decimal 0 ds)), s)"
    by (simp only: browser_click_def e r prod.case sum.case)
  show "browser_type en (''element:'' @ ds) str s = (Inr (number_not_found (decimal 0 ds)), s)"
    by (simp only: browser_type_def e r prod.case sum.case)
qed

text \<open>
  C10. A \<^verbatim>\<open>browser_screenshot\<close> that reports success has stored, as the registry, the
  elements of its own capture. When it was taken without overlays that registry is empty,
  and it stays empty through every sequence of later browser tools in which no screenshot
  with overlays is taken; after such a sequence every \<^verbatim>\<open>browser_click\<close> and every
  \<^verbatim>\<open>browser_type\<close> with a numeric reference \<^verbatim>\<open>element:N\<close> (\<open>N\<close> written in decimal digits, at
  most the 4300 that \<^verbatim>\<open>int\<close> accepts) returns the failure "Element number N not found" and
  leaves the server as it is.
\<close>

theorem no_overlay_screenshot_clears_registry:
  assumes "browser_screenshot en analyze question full_page with_overlays srv = (Inr res, srv1)"
    and "subscript res ''success'' = Inr (JBool True)"
    and "list_all (\<lambda>p. \<not> overlay_screenshot (snd p)) reqs"
    and "ds \<noteq> []" and "list_all is_digit ds" and "length ds \<le> 4300"
  shows "(\<exists>c0 shot c1. cdp (snd (ensure_cdp en srv)) = Some c0
            \<and> screenshot en full_page with_overlays c0 = (Inr shot, c1)
            \<and> last_elements srv1 = snd shot)
       \<and> (\<not> with_overlays \<longrightarrow>
            last_elements srv1 = JArr []
            \<and> last_elements (serve reqs srv1) = JArr []
            \<and> browser_click en' (''element:'' @ ds) (serve reqs srv1)
              = (Inr (number_not_found (decimal 0 ds)), serve reqs srv1)
            \<and> browser_type en' (''element:'' @ ds) str (serve reqs srv1)
              = (Inr (number_not_found (decimal 0 ds)), serve reqs srv1))"
proof -
  from screenshot_success [OF assms(1,2)] obtain c0 shot c1 where
    c0: "cdp (snd (ensure_cdp en srv)) = Some c0"
    and sh: "screenshot en full_page with_overlays c0 = (Inr shot, c1)"
    and le: "last_elements srv1 = snd shot" and c1: "cdp srv1 = Some c1"
    by blast
  have a: "\<exists>c0 shot c1. cdp (snd (ensure_cdp en srv)) = Some c0
            \<and> screenshot en full_page with_overlays c0 = (Inr shot, c1)
            \<and> last_elements srv1 = snd shot"
    using c0 sh le by blast
  have b: "last_elements srv1 = JArr []
            \<and> last_elements (serve reqs srv1) = JArr []
            \<and> browser_click en' (''element:'' @ ds) (serve reqs srv1)
              = (Inr (number_not_found (decimal 0 ds)), serve reqs srv1)
            \<and> browser_type en' (''element:'' @ ds) str (serve reqs srv1)
              = (Inr (number_not_found (decimal 0 ds)), serve reqs srv1)"
    if "\<not> with_overlays"
  proof -
    have "snd shot = JArr []" using sh that by (auto intro: screenshot_without_overlays)
    then have cl: "cleared srv1" using le c1 by (simp add: cleared_def)
    have cl': "cleared (serve reqs srv1)" using cl assms(3) by (rule serve_keeps)
    show ?thesis
      using cl cl' stale_when_cleared [OF cl' assms(4,5,6)] by (simp add: cleared_def)
  qed
  show ?thesis using a b by blast
qed

theorem no_overlay_screenshot_witness:
  "fst (browser_screenshot capture_env False None False False capture_server)
     = Inr (JObj [(''success'', JBool True),
                  (''screenshot_path'', JStr ''/tmp/browser_screenshot.png''),
                  (''elements'', JArr [])])
   \<and> last_elements (snd (browser_screenshot capture_env False None False False capture_server))
     = JArr []
   \<and> fst (browser_click example_env ''element:1''
            (serve [(example_env, GetConsole)]
               (snd (browser_screenshot capture_env False None False False capture_server))))
     = Inr (number_not_found 1)"
proof -
  let ?res = "JObj [(''success'', JBool True),
                  (''screenshot_path'', JStr ''/tmp/browser_screenshot.png''),
                  (''elements'', JArr [])]"
  let ?s1 = "snd (browser_screenshot capture_env False None False False capture_server)"
  have f: "fst (browser_screenshot capture_env False None False False capture_server) = Inr ?res"
    by (simp add: browser_screenshot_def ensure_cdp_def capture_server_def on_cdp_def
        screenshot_def and_then_def lift_def connected_cdp_def new_cdp_def send_command_answered
        result_reply_def reply_result_def attempt_def subscript_def decode_base64_def
        capture_env_def example_env_def screenshot_result_def guarded_def)
  then have b: "browser_screenshot capture_env False None False False capture_server = (Inr ?res, ?s1)"
    by (metis prod.collapse)
  have s: "subscript ?res ''success'' = Inr (JBool True)" by (simp add: subscript_def)
  have r: "list_all (\<lambda>p. \<not> overlay_screenshot (snd p)) [(example_env, GetConsole)]" by simp
  have d: "''1'' \<noteq> []" "list_all is_digit ''1''" "length ''1'' \<le> 4300" "decimal 0 ''1'' = 1"
    by (simp_all add: is_digit_def digit_val_def)
  from no_overlay_screenshot_clears_registry [OF b s r d(1,2,3), where en' = example_env] d(4) f
  show ?thesis by simp
qed

end
